theory Spec2Isabelle
  imports Main "HOL-Library.Word"
begin

section \<open>Errors\<close>

text \<open>
  The error values of the three source files. \<open>ErrExternal\<close> stands for an error
  handed back by a collaborator that is not part of the modelled files (the producer
  connection, the endpoint factory, the topology repository, the admin transport);
  \<open>ErrPanic\<close> for a run-time panic (an index out of range).
\<close>

datatype error =
    ErrorInvalidBucket
  | ErrorInvalidVbucketBranch
  | ErrorInconsistentFeed
  | ErrorResponseTimeout
  | ErrStreamNotOpen
  | ErrClientCancel
  | ErrScanTimedOut
  | ErrExternal string
  | ErrPanic

section \<open>Timestamps\<close>

text \<open>
  \<open>TsVbuuid\<close>: per bucket, the parallel arrays of vbucket numbers, sequence numbers,
  vbuuids and snapshot boundaries. The vbucket numbers are 32 bits wide on the wire
  and 16 bits wide inside the feed (\<open>Vbno32to16\<close>).
\<close>

record TsVbuuid =
  Pool :: string
  Bucket :: string
  Vbnos :: "32 word list"
  Seqnos :: "64 word list"
  Vbuuids :: "64 word list"
  Snapshots :: "(64 word \<times> 64 word) list"

section \<open>Stream Manager (manager package)\<close>

subsection \<open>Data\<close>

datatype StreamId = MAINT_STREAM | INIT_STREAM | OTHER_STREAM nat

text \<open>
  Modelled from the spec: the declaration of \<open>common.IndexState\<close> is not among the
  source files; the lifecycle states are the set the data model lists. The conversion
  \<open>common.IndexState(inst.State)\<close> of the handlers is the identity on this type.
\<close>

datatype IndexState =
    INDEX_STATE_CREATED
  | INDEX_STATE_READY
  | INDEX_STATE_INITIAL
  | INDEX_STATE_ACTIVE
  | INDEX_STATE_DELETED

record IndexInstDistribution =
  InstId :: "64 word"
  State :: IndexState

record IndexDefnDistribution =
  defn_Bucket :: string
  defn_Name :: string
  defn_Instances :: "IndexInstDistribution list"

record IndexTopology =
  topo_Version :: "64 word"
  topo_Bucket :: string
  topo_Definitions :: "IndexDefnDistribution list"

record Stream =
  stream_id :: StreamId
  stream_port :: string
  stream_status :: bool

datatype Instance = Instance "64 word"

text \<open>
  A \<open>changeRecord\<close> of the source holds two pointers. The record of the model holds
  what the pointers denote when the change list is read, that is after the loops that
  built it have finished.
\<close>

record changeRecord =
  cr_definition :: IndexDefnDistribution
  cr_instance :: IndexInstDistribution

text \<open>The calls made on the \<open>StreamAdmin\<close> interface, in the order they are made.\<close>

datatype AdminCall =
    AddIndexToStream StreamId "string list" "Instance list"
  | DeleteIndexFromStream StreamId "string list" "64 word list"
  | RestartStreamIfNecessaryCall StreamId "TsVbuuid list"

record StreamManager =
  streams :: "StreamId \<rightharpoonup> Stream"
  topologies :: "string \<rightharpoonup> IndexTopology"
  isClosed :: bool
  stopchClosed :: bool
  adminCalls :: "AdminCall list"

text \<open>
  The collaborators of the Stream Manager that are not part of the source file: each
  field is the answer the collaborator gives to a call.
\<close>

record SMEnv =
  getPortForStreamId :: "StreamId \<Rightarrow> string"
  newStream :: "StreamId \<Rightarrow> string \<Rightarrow> error + Stream"
  stream_start :: "Stream \<Rightarrow> error option"
  GetLocalServiceHost :: "error + string"
  JoinHostPort :: "string \<Rightarrow> string \<Rightarrow> string"
  GetTopologyAsInstanceProtoMsg :: "string \<Rightarrow> string \<Rightarrow> error + (Instance list \<times> IndexTopology)"
  GetAllDeletedIndexInstancesId :: "string list \<Rightarrow> error + 64 word list"
  GetChangeRecordAsProtoMsg :: "changeRecord list \<Rightarrow> string \<Rightarrow> error + Instance list"
  GetGlobalTopology :: "error + string list"
  getBucketFromTopologyKey :: "string \<Rightarrow> string"
  FindIndexDefinition :: "IndexTopology \<Rightarrow> string \<Rightarrow> string \<Rightarrow> IndexDefnDistribution option"
  admin_AddIndexToStream :: "StreamId \<Rightarrow> string list \<Rightarrow> Instance list \<Rightarrow> error option"
  admin_DeleteIndexFromStream :: "StreamId \<Rightarrow> string list \<Rightarrow> 64 word list \<Rightarrow> error option"
  admin_RestartStreamIfNecessary :: "StreamId \<Rightarrow> TsVbuuid list \<Rightarrow> error option"

subsection \<open>Public operations\<close>

text \<open>
  Every public operation takes \<open>s.mutex\<close> on entry and releases it on return. The
  model runs one operation at a time, so the lock shows only where an operation calls
  another one while holding it (\<open>AddIndexForAllBuckets\<close>). The timer of the index
  manager, started and stopped next to the admin calls, is not part of the state.
\<close>

definition streamOpen :: "StreamManager \<Rightarrow> StreamId \<Rightarrow> bool" where
  "streamOpen s streamId =
     (case streams s streamId of None \<Rightarrow> False | Some stream \<Rightarrow> stream_status stream)"

definition closeStreamNoLock :: "StreamManager \<Rightarrow> StreamId \<Rightarrow> error option \<times> StreamManager" where
  "closeStreamNoLock s streamId =
     (if \<not> streamOpen s streamId then (None, s)
      else (None, s\<lparr>streams := (streams s)(streamId := None)\<rparr>))"

text \<open>
  \<open>Close\<close> walks over \<open>s.streams\<close> and closes every stream through
  \<open>closeStreamNoLock\<close>, which removes the streams whose status is set. A stream
  is stored under its own id.
\<close>

definition Close :: "StreamManager \<Rightarrow> StreamManager" where
  "Close s =
     (if isClosed s then s
      else s\<lparr>streams := (\<lambda>streamId. if streamOpen s streamId then None else streams s streamId),
             stopchClosed := True,
             isClosed := True\<rparr>)"

definition IsClosed :: "StreamManager \<Rightarrow> bool" where
  "IsClosed s = isClosed s"

definition StartStream :: "SMEnv \<Rightarrow> StreamManager \<Rightarrow> StreamId \<Rightarrow> error option \<times> StreamManager" where
  "StartStream env s streamId =
     (if isClosed s then (None, s)
      else if streamOpen s streamId then (None, s)
      else
        (case newStream env streamId (getPortForStreamId env streamId) of
           Inl err \<Rightarrow> (Some err, s)
         | Inr stream \<Rightarrow>
             (case stream_start env stream of
                Some err \<Rightarrow> (Some err, s)
              | None \<Rightarrow>
                  (None, s\<lparr>streams := (streams s)(streamId \<mapsto> stream\<lparr>stream_status := True\<rparr>)\<rparr>))))"

definition getAddrForPort :: "SMEnv \<Rightarrow> string \<Rightarrow> error + string" where
  "getAddrForPort env port =
     (case GetLocalServiceHost env of
        Inl err \<Rightarrow> Inl err
      | Inr host \<Rightarrow> Inr (JoinHostPort env host port))"

text \<open>The loop of \<open>AddIndexForBuckets\<close> over the buckets, collecting the instances.\<close>

fun collectInstances :: "SMEnv \<Rightarrow> StreamId \<Rightarrow> string list \<Rightarrow> Instance list \<Rightarrow> error + Instance list" where
  "collectInstances env streamId [] allInstances = Inr allInstances"
| "collectInstances env streamId (bucket # rest) allInstances =
     (case getAddrForPort env (getPortForStreamId env streamId) of
        Inl err \<Rightarrow> Inl err
      | Inr addr \<Rightarrow>
          (case GetTopologyAsInstanceProtoMsg env bucket addr of
             Inl err \<Rightarrow> Inl err
           | Inr (instances, topology) \<Rightarrow>
               collectInstances env streamId rest
                 (if length instances \<noteq> 0 then allInstances @ instances else allInstances)))"

definition AddIndexForBuckets ::
  "SMEnv \<Rightarrow> StreamManager \<Rightarrow> StreamId \<Rightarrow> string list \<Rightarrow> error option \<times> StreamManager" where
  "AddIndexForBuckets env s streamId buckets =
     (if isClosed s then (None, s)
      else if \<not> streamOpen s streamId then (Some ErrStreamNotOpen, s)
      else
        (case collectInstances env streamId buckets [] of
           Inl err \<Rightarrow> (Some err, s)
         | Inr allInstances \<Rightarrow>
             (admin_AddIndexToStream env streamId buckets allInstances,
              s\<lparr>adminCalls := adminCalls s @ [AddIndexToStream streamId buckets allInstances]\<rparr>)))"

text \<open>
  \<open>getBucketWithIndexes\<close> answers \<open>nil, nil\<close> when the global topology cannot be
  read: its error result is always \<open>nil\<close>.
\<close>

definition getBucketWithIndexes :: "SMEnv \<Rightarrow> string list \<times> error option" where
  "getBucketWithIndexes env =
     (case GetGlobalTopology env of
        Inl err \<Rightarrow> ([], None)
      | Inr keys \<Rightarrow> (map (getBucketFromTopologyKey env) keys, None))"

text \<open>
  \<open>AddIndexForAllBuckets\<close> holds \<open>s.mutex\<close> and then calls \<open>AddIndexForBuckets\<close>,
  which locks the same mutex: on an open manager the call never returns, which is the
  value \<open>None\<close>.
\<close>

definition AddIndexForAllBuckets ::
  "SMEnv \<Rightarrow> StreamManager \<Rightarrow> StreamId \<Rightarrow> (error option \<times> StreamManager) option" where
  "AddIndexForAllBuckets env s streamId =
     (if isClosed s then Some (None, s)
      else
        (case getBucketWithIndexes env of
           (buckets, Some err) \<Rightarrow> Some (Some err, s)
         | (buckets, None) \<Rightarrow> None))"

definition DeleteIndexForBuckets ::
  "SMEnv \<Rightarrow> StreamManager \<Rightarrow> StreamId \<Rightarrow> string list \<Rightarrow> error option \<times> StreamManager" where
  "DeleteIndexForBuckets env s streamId buckets =
     (if isClosed s then (None, s)
      else if \<not> streamOpen s streamId then (Some ErrStreamNotOpen, s)
      else
        (case GetAllDeletedIndexInstancesId env buckets of
           Inl err \<Rightarrow> (Some err, s)
         | Inr instances \<Rightarrow>
             (admin_DeleteIndexFromStream env streamId buckets instances,
              s\<lparr>adminCalls := adminCalls s @ [DeleteIndexFromStream streamId buckets instances]\<rparr>)))"

definition RestartStreamIfNecessary ::
  "SMEnv \<Rightarrow> StreamManager \<Rightarrow> StreamId \<Rightarrow> TsVbuuid list \<Rightarrow> error option \<times> StreamManager" where
  "RestartStreamIfNecessary env s streamId timestamps =
     (if isClosed s then (None, s)
      else
        (admin_RestartStreamIfNecessary env streamId timestamps,
         s\<lparr>adminCalls := adminCalls s @ [RestartStreamIfNecessaryCall streamId timestamps]\<rparr>))"

definition CloseStream :: "StreamManager \<Rightarrow> StreamId \<Rightarrow> error option \<times> StreamManager" where
  "CloseStream s streamId =
     (if isClosed s then (None, s) else closeStreamNoLock s streamId)"

definition addIndexInstances ::
  "SMEnv \<Rightarrow> StreamManager \<Rightarrow> StreamId \<Rightarrow> string \<Rightarrow> Instance list \<Rightarrow> error option \<times> StreamManager" where
  "addIndexInstances env s streamId bucket instances =
     (if isClosed s then (None, s)
      else if \<not> streamOpen s streamId then (Some ErrStreamNotOpen, s)
      else
        (admin_AddIndexToStream env streamId [bucket] instances,
         s\<lparr>adminCalls := adminCalls s @ [AddIndexToStream streamId [bucket] instances]\<rparr>))"

definition removeIndexInstances ::
  "SMEnv \<Rightarrow> StreamManager \<Rightarrow> StreamId \<Rightarrow> string \<Rightarrow> 64 word list \<Rightarrow> error option \<times> StreamManager" where
  "removeIndexInstances env s streamId bucket instances =
     (if isClosed s then (None, s)
      else if \<not> streamOpen s streamId then (Some ErrStreamNotOpen, s)
      else
        (admin_DeleteIndexFromStream env streamId [bucket] instances,
         s\<lparr>adminCalls := adminCalls s @ [DeleteIndexFromStream streamId [bucket] instances]\<rparr>))"

subsection \<open>Topology change handlers\<close>

text \<open>
  \<open>inState\<close>: a \<open>nil\<close> list of possible states (\<open>None\<close>) accepts every state; an
  empty list that is not \<open>nil\<close> accepts none.
\<close>

definition inState :: "IndexState \<Rightarrow> IndexState list option \<Rightarrow> bool" where
  "inState state possibleStates =
     (case possibleStates of None \<Rightarrow> True | Some ps \<Rightarrow> state \<in> set ps)"

text \<open>
  The inner loop of \<open>addInstancesToChangeList\<close> over the instances of the old
  definition: every old instance with the instance id of \<open>newInst\<close> narrows \<open>add\<close>.
\<close>

fun oldInstLoop ::
  "IndexState list option \<Rightarrow> IndexInstDistribution \<Rightarrow> IndexInstDistribution list \<Rightarrow> bool \<Rightarrow> bool" where
  "oldInstLoop fromStates newInst [] add = add"
| "oldInstLoop fromStates newInst (oldInst # rest) add =
     oldInstLoop fromStates newInst rest
       (if InstId newInst = InstId oldInst
        then add \<and> inState (State oldInst) fromStates \<and> State oldInst \<noteq> State newInst
        else add)"

text \<open>The value of \<open>add\<close> when the body of the outer loop reaches \<open>if add\<close>.\<close>

definition addDecision ::
  "IndexDefnDistribution option \<Rightarrow> IndexState list option \<Rightarrow> IndexState list option \<Rightarrow>
   IndexInstDistribution \<Rightarrow> bool" where
  "addDecision oldDefn fromStates toStates newInst =
     (let add = inState (State newInst) toStates in
      case oldDefn of
        None \<Rightarrow> add
      | Some old \<Rightarrow> oldInstLoop fromStates newInst (defn_Instances old) add)"

text \<open>
  The outer loop, \<open>for _, newInst := range newDefn.Instances\<close>. The range variable
  \<open>newInst\<close> is one variable for the whole loop (the file is written for the Go of
  2014; a variable per iteration came with Go 1.22), assigned at the start of every
  iteration. The record appended to \<open>changes\<close> is
  \<open>&changeRecord{definition: newDefn, instance: &newInst}\<close>: it stores the address
  of the variable, not a copy of the instance. All records of one call are therefore
  the same pair of pointers, and the list is given by their number. The state of the
  loop is that number and the content of \<open>newInst\<close>.
\<close>

fun instLoop ::
  "IndexDefnDistribution option \<Rightarrow> IndexState list option \<Rightarrow> IndexState list option \<Rightarrow>
   IndexInstDistribution list \<Rightarrow> nat \<times> IndexInstDistribution option \<Rightarrow>
   nat \<times> IndexInstDistribution option" where
  "instLoop oldDefn fromStates toStates [] st = st"
| "instLoop oldDefn fromStates toStates (inst # rest) (n, newInst) =
     instLoop oldDefn fromStates toStates rest
       (if addDecision oldDefn fromStates toStates inst then Suc n else n, Some inst)"

text \<open>
  The change list as its readers see it: they run after the loop, when \<open>newInst\<close>
  holds the last instance of the definition.
\<close>

definition addInstancesToChangeList ::
  "IndexDefnDistribution option \<Rightarrow> IndexDefnDistribution \<Rightarrow> IndexState list option \<Rightarrow>
   IndexState list option \<Rightarrow> changeRecord list" where
  "addInstancesToChangeList oldDefn newDefn fromStates toStates =
     (case instLoop oldDefn fromStates toStates (defn_Instances newDefn) (0, None) of
        (n, None) \<Rightarrow> []
      | (n, Some newInst) \<Rightarrow> replicate n \<lparr>cr_definition = newDefn, cr_instance = newInst\<rparr>)"

text \<open>
  The loop of the two handlers over the definitions of the new topology.
  \<open>handleAddInstances\<close> looks the old definition up under the bucket of the call,
  \<open>handleDeleteInstances\<close> under the bucket of the new definition: \<open>bucketOf\<close>.
\<close>

definition topologyChanges ::
  "SMEnv \<Rightarrow> (IndexDefnDistribution \<Rightarrow> string) \<Rightarrow> IndexTopology option \<Rightarrow> IndexTopology \<Rightarrow>
   IndexState list option \<Rightarrow> IndexState list option \<Rightarrow> changeRecord list" where
  "topologyChanges env bucketOf oldTopology newTopology fromState toState =
     concat (map (\<lambda>newDefn.
        (case oldTopology of
           Some old \<Rightarrow>
             addInstancesToChangeList
               (FindIndexDefinition env old (bucketOf newDefn) (defn_Name newDefn))
               newDefn fromState toState
         | None \<Rightarrow> addInstancesToChangeList None newDefn fromState toState))
       (topo_Definitions newTopology))"

text \<open>
  In \<open>handleAddInstances\<close> the definition handed to \<open>addInstancesToChangeList\<close> is
  \<open>&newDefn\<close>, the address of the range variable of the loop over the definitions:
  after that loop every record denotes the last definition of the new topology.
\<close>

definition handleAddInstances ::
  "SMEnv \<Rightarrow> StreamManager \<Rightarrow> StreamId \<Rightarrow> string \<Rightarrow> IndexTopology option \<Rightarrow> IndexTopology \<Rightarrow>
   IndexState list option \<Rightarrow> IndexState list option \<Rightarrow> error option \<times> StreamManager" where
  "handleAddInstances env s streamId bucket oldTopology newTopology fromState toState =
     (if (case oldTopology of None \<Rightarrow> False
          | Some old \<Rightarrow> topo_Version old = topo_Version newTopology)
      then (None, s)
      else
        (let changes =
               map (\<lambda>c. c\<lparr>cr_definition := last (topo_Definitions newTopology)\<rparr>)
                 (topologyChanges env (\<lambda>newDefn. bucket) oldTopology newTopology fromState toState)
         in if length changes > 0 then
              (case getAddrForPort env (getPortForStreamId env streamId) of
                 Inl err \<Rightarrow> (Some err, s)
               | Inr addr \<Rightarrow>
                   (case GetChangeRecordAsProtoMsg env changes addr of
                      Inl err \<Rightarrow> (Some err, s)
                    | Inr instances \<Rightarrow> addIndexInstances env s streamId bucket instances))
            else (None, s)))"

definition handleDeleteInstances ::
  "SMEnv \<Rightarrow> StreamManager \<Rightarrow> StreamId \<Rightarrow> string \<Rightarrow> IndexTopology option \<Rightarrow> IndexTopology \<Rightarrow>
   IndexState list option \<Rightarrow> IndexState list option \<Rightarrow> error option \<times> StreamManager" where
  "handleDeleteInstances env s streamId bucket oldTopology newTopology fromState toState =
     (if (case oldTopology of None \<Rightarrow> True
          | Some old \<Rightarrow> topo_Version old = topo_Version newTopology)
      then (None, s)
      else
        (let changes = topologyChanges env defn_Bucket oldTopology newTopology fromState toState;
             toBeDeleted = map (\<lambda>change. InstId (cr_instance change)) changes
         in removeIndexInstances env s streamId bucket toBeDeleted))"

definition handleTopologyChangeForMaintStream ::
  "SMEnv \<Rightarrow> StreamManager \<Rightarrow> IndexTopology \<Rightarrow> error option \<times> StreamManager" where
  "handleTopologyChangeForMaintStream env s newTopology =
     (if \<not> streamOpen s MAINT_STREAM then (None, s)
      else
        (let oldTopology = topologies s (topo_Bucket newTopology) in
         case handleAddInstances env s MAINT_STREAM (topo_Bucket newTopology) oldTopology newTopology
                (Some [INDEX_STATE_CREATED]) (Some [INDEX_STATE_READY]) of
           (Some err, s1) \<Rightarrow> (Some err, s1)
         | (None, s1) \<Rightarrow>
             handleDeleteInstances env s1 MAINT_STREAM (topo_Bucket newTopology) oldTopology newTopology
               (Some [INDEX_STATE_ACTIVE, INDEX_STATE_READY]) (Some [INDEX_STATE_DELETED])))"

definition handleTopologyChangeForInitStream ::
  "SMEnv \<Rightarrow> StreamManager \<Rightarrow> IndexTopology \<Rightarrow> error option \<times> StreamManager" where
  "handleTopologyChangeForInitStream env s newTopology =
     (if \<not> streamOpen s INIT_STREAM then (None, s)
      else
        (let oldTopology = topologies s (topo_Bucket newTopology) in
         case handleAddInstances env s INIT_STREAM (topo_Bucket newTopology) oldTopology newTopology
                (Some [INDEX_STATE_CREATED]) (Some [INDEX_STATE_READY]) of
           (Some err, s1) \<Rightarrow> (Some err, s1)
         | (None, s1) \<Rightarrow>
             handleDeleteInstances env s1 INIT_STREAM (topo_Bucket newTopology) oldTopology newTopology
               None (Some [INDEX_STATE_DELETED, INDEX_STATE_ACTIVE])))"

definition handleTopologyChange ::
  "SMEnv \<Rightarrow> StreamManager \<Rightarrow> IndexTopology \<Rightarrow> error option \<times> StreamManager" where
  "handleTopologyChange env s newTopology =
     (case handleTopologyChangeForMaintStream env s newTopology of
        (Some err, s1) \<Rightarrow> (Some err, s1)
      | (None, s1) \<Rightarrow>
          (case handleTopologyChangeForInitStream env s1 newTopology of
             (Some err, s2) \<Rightarrow> (Some err, s2)
           | (None, s2) \<Rightarrow>
               (None, s2\<lparr>topologies := (topologies s2)(topo_Bucket newTopology \<mapsto> newTopology)\<rparr>)))"

section \<open>Scan-side cancel callback (indexer package)\<close>

text \<open>
  A channel is known by a number; \<open>None\<close> is the \<open>nil\<close> channel, on which a receive
  never proceeds. \<open>getTimeoutCh\<close> gives the channel of the request's timer, or \<open>nil\<close>
  when the request has no timer.
\<close>

type_synonym chan = nat

record ScanRequest =
  Timeout :: "chan option"
  CancelCh :: "chan option"

record CancelCb =
  cb_done :: "chan option"
  cb_timeout :: "chan option"
  cb_cancel :: "chan option"

definition getTimeoutCh :: "ScanRequest \<Rightarrow> chan option" where
  "getTimeoutCh r = (case Timeout r of Some c \<Rightarrow> Some c | None \<Rightarrow> None)"

text \<open>\<open>make(chan struct{})\<close> gives the fresh channel \<open>fresh\<close>.\<close>

definition NewCancelCallback :: "chan \<Rightarrow> ScanRequest \<Rightarrow> CancelCb" where
  "NewCancelCallback fresh req =
     \<lparr>cb_done = Some fresh, cb_timeout = getTimeoutCh req, cb_cancel = CancelCh req\<rparr>"

text \<open>The three cases of the \<open>select\<close> of \<open>Run\<close>, in the order of the source.\<close>

datatype signal = SigDone | SigCancel | SigTimeout

definition caseChan :: "CancelCb \<Rightarrow> signal \<Rightarrow> chan option" where
  "caseChan c sig =
     (case sig of SigDone \<Rightarrow> cb_done c | SigCancel \<Rightarrow> cb_cancel c | SigTimeout \<Rightarrow> cb_timeout c)"

text \<open>The calls of \<open>c.callb\<close> made by the body of a case: the list of their arguments.\<close>

definition runCase :: "signal \<Rightarrow> error list" where
  "runCase sig =
     (case sig of
        SigDone \<Rightarrow> []
      | SigCancel \<Rightarrow> [ErrClientCancel]
      | SigTimeout \<Rightarrow> [ErrScanTimedOut])"

text \<open>
  The goroutine of \<open>Run\<close> executes one \<open>select\<close>. \<open>pending\<close> lists the signals
  that have been raised when the \<open>select\<close> is decided, the earliest first: one signal
  when the goroutine was already waiting, several when they were raised before it
  reached the \<open>select\<close>. A case can proceed when its signal is pending and its channel
  is not \<open>nil\<close>. Go takes one of the cases that can proceed, chosen at random, so a run
  is described by the list of its possible outcomes: the case taken and the calls of
  the callback. With no case that can proceed the goroutine waits, and calls nothing.
\<close>

definition canProceed :: "CancelCb \<Rightarrow> signal list \<Rightarrow> signal list" where
  "canProceed c pending = filter (\<lambda>sig. caseChan c sig \<noteq> None) (remdups pending)"

definition Run :: "CancelCb \<Rightarrow> signal list \<Rightarrow> (signal \<times> error list) list" where
  "Run c pending = map (\<lambda>sig. (sig, runCase sig)) (canProceed c pending)"

section \<open>Topic feed (projector package)\<close>

subsection \<open>Data\<close>

text \<open>\<open>mcd.Status\<close> is a 16-bit code of the memcached protocol.\<close>

definition SUCCESS :: "16 word" where
  "SUCCESS = 0x00"

definition ROLLBACK :: "16 word" where
  "ROLLBACK = 0x23"

record UprEvent =
  ev_Opaque :: "32 word"
  ev_Status :: "16 word"
  ev_VBucket :: "16 word"
  ev_VBuuid :: "64 word"
  ev_Seqno :: "64 word"

record controlStreamRequest =
  csr_bucket :: string
  csr_kvaddr :: string
  csr_opaque :: "32 word"
  csr_status :: "16 word"
  csr_vbno :: "16 word"
  csr_vbuuid :: "64 word"
  csr_seqno :: "64 word"

record controlStreamEnd =
  cse_bucket :: string
  cse_kvaddr :: string
  cse_opaque :: "32 word"
  cse_status :: "16 word"
  cse_vbno :: "16 word"

text \<open>
  The values carried by the back-channel, of type \<open>interface{}\<close>: a pointer to a
  \<open>controlStreamRequest\<close>, a pointer to a \<open>controlStreamEnd\<close>, or a slice
  \<open>[]interface{}\<close> of such values. Every message on the back-channel is a slice of
  one element, \<open>[]interface{}{x}\<close>; the model keeps the message as its element \<open>x\<close>,
  which is what the waits read (\<open>msg[0]\<close>).
\<close>

datatype iface =
    StreamRequestMsg controlStreamRequest
  | StreamEndMsg controlStreamEnd
  | Slice "iface list"

record CbBucket =
  cb_pool :: string
  cb_name :: string

datatype BucketFeeder = BucketFeeder nat

record Evaluator =
  ev_Bucket :: string

record Router =
  rt_Endpoints :: "string list"

record Engine =
  eng_uuid :: "64 word"
  eng_evaluator :: Evaluator
  eng_router :: "Router option"

record RouterEndpoint =
  ep_raddr :: string
  ep_serial :: nat

record KVData =
  kv_bucket :: string
  kv_kvaddr :: string
  kv_reqTs :: TsVbuuid

text \<open>
  A Go map that the feed only walks over (the evaluators and routers of a request,
  the vbucket map of a bucket) is an association list: each key once, in the order
  the \<open>range\<close> visits them.
\<close>

record Subscriber =
  GetEvaluators :: "error + (64 word \<times> Evaluator) list"
  GetRouters :: "error + (64 word \<times> Router) list"

record MutationTopicRequest = Subscriber +
  mtr_ReqTimestamps :: "TsVbuuid list"

record AddBucketsRequest = Subscriber +
  abr_ReqTimestamps :: "TsVbuuid list"

record RestartVbucketsRequest =
  RestartTimestamps :: "TsVbuuid list"

record ShutdownVbucketsRequest =
  ShutdownTimestamps :: "TsVbuuid list"

record DelBucketsRequest =
  Buckets :: "string list"

record DelInstancesRequest =
  InstanceIds :: "64 word list"

record RepairEndpointsRequest =
  Endpoints :: "string list"

record Feed =
  cluster :: string
  topic :: string
  kvaddrs :: "string list"
  buckets :: "string \<rightharpoonup> CbBucket"
  reqTss :: "string \<rightharpoonup> TsVbuuid"
  rollTss :: "string \<rightharpoonup> TsVbuuid"
  feeders :: "string \<rightharpoonup> BucketFeeder"
  kvdata :: "string \<rightharpoonup> (string \<rightharpoonup> KVData)"
  engines :: "string \<rightharpoonup> (64 word \<rightharpoonup> Engine)"
  endpoints :: "string \<rightharpoonup> RouterEndpoint"
  backch :: "iface list"

text \<open>
  The collaborators of the feed that are not part of the source file: the producer
  cluster (\<open>ConnectBucket\<close>, \<open>Refresh\<close>, \<open>GetVBmap\<close>, \<open>GetFailoverLogs\<close>,
  \<open>OpenBucketFeed\<close>, \<open>StartVbStreams\<close>, \<open>EndVbStreams\<close>), the endpoint factory and
  the liveness of an endpoint (\<open>epFactory\<close>, \<open>Ping\<close>), four operations of the
  timestamp whose definitions the source does not give (\<open>VerifyBranch\<close>,
  \<open>SelectByVbuckets\<close>, \<open>Union\<close>, \<open>FilterByVbuckets\<close>), and the clock read by
  \<open>newOpaque\<close>. Each field is the answer given to a call.
\<close>

record FeedEnv =
  ConnectBucket :: "string \<Rightarrow> string \<Rightarrow> string \<Rightarrow> error + CbBucket"
  Refresh :: "CbBucket \<Rightarrow> error option"
  GetVBmap :: "CbBucket \<Rightarrow> string list \<Rightarrow> error + (string \<times> 16 word list) list"
  GetFailoverLogs :: "CbBucket \<Rightarrow> 16 word list \<Rightarrow> error + (16 word \<Rightarrow> (64 word \<times> 64 word) list)"
  OpenBucketFeed :: "CbBucket \<Rightarrow> error + BucketFeeder"
  StartVbStreams :: "BucketFeeder \<Rightarrow> 32 word \<Rightarrow> TsVbuuid \<Rightarrow> error option"
  EndVbStreams :: "BucketFeeder \<Rightarrow> 32 word \<Rightarrow> TsVbuuid \<Rightarrow> error option"
  epFactory :: "string \<Rightarrow> string \<Rightarrow> error + RouterEndpoint option"
  Ping :: "RouterEndpoint \<Rightarrow> bool"
  VerifyBranch :: "TsVbuuid \<Rightarrow> 16 word list \<Rightarrow> 64 word list \<Rightarrow> bool"
  SelectByVbuckets :: "TsVbuuid \<Rightarrow> 16 word list \<Rightarrow> TsVbuuid"
  Union :: "TsVbuuid \<Rightarrow> TsVbuuid \<Rightarrow> TsVbuuid"
  FilterByVbuckets :: "TsVbuuid \<Rightarrow> 16 word list \<Rightarrow> TsVbuuid"
  UnixNano :: "64 word"

definition NewFeed :: "string \<Rightarrow> string \<Rightarrow> string list \<Rightarrow> Feed" where
  "NewFeed topicn clustern kvs =
     \<lparr>cluster = clustern, topic = topicn, kvaddrs = kvs,
      buckets = Map.empty, reqTss = Map.empty, rollTss = Map.empty, feeders = Map.empty,
      kvdata = Map.empty, engines = Map.empty, endpoints = Map.empty, backch = []\<rparr>"

subsection \<open>Helpers of other packages\<close>

text \<open>
  Modelled from the spec: \<open>protobuf.NewTsVbuuid\<close> and \<open>TsVbuuid.Append\<close> are not
  among the source files. A timestamp is the parallel arrays of the data model; a new
  one is empty, and \<open>Append(vb, seq, uuid, s, e)\<close> adds one entry at the end of each.
\<close>

definition NewTsVbuuid :: "string \<Rightarrow> string \<Rightarrow> TsVbuuid" where
  "NewTsVbuuid pooln bucketn =
     \<lparr>Pool = pooln, Bucket = bucketn, Vbnos = [], Seqnos = [], Vbuuids = [], Snapshots = []\<rparr>"

definition Append ::
  "TsVbuuid \<Rightarrow> 16 word \<Rightarrow> 64 word \<Rightarrow> 64 word \<Rightarrow> 64 word \<Rightarrow> 64 word \<Rightarrow> TsVbuuid" where
  "Append ts vbno seqno vbuuid snapStart snapEnd =
     ts\<lparr>Vbnos := Vbnos ts @ [ucast vbno],
        Seqnos := Seqnos ts @ [seqno],
        Vbuuids := Vbuuids ts @ [vbuuid],
        Snapshots := Snapshots ts @ [(snapStart, snapEnd)]\<rparr>"

text \<open>
  Modelled from the spec: \<open>c.Vbno32to16\<close>, \<open>c.RemoveUint16\<close> and \<open>c.HasUint64\<close> are
  not among the source files. The first narrows the vbucket numbers of a timestamp to
  16 bits; the second takes a vbucket that has answered out of the list of the
  vbuckets a wait still expects; the third tells whether an instance id is listed.
\<close>

definition Vbno32to16 :: "32 word list \<Rightarrow> 16 word list" where
  "Vbno32to16 vbnos = map ucast vbnos"

definition RemoveUint16 :: "16 word \<Rightarrow> 16 word list \<Rightarrow> 16 word list" where
  "RemoveUint16 item xs = filter (\<lambda>x. x \<noteq> item) xs"

definition HasUint64 :: "64 word \<Rightarrow> 64 word list \<Rightarrow> bool" where
  "HasUint64 item xs = (item \<in> set xs)"

subsection \<open>Feedback from the data path\<close>

definition PostStreamRequest :: "Feed \<Rightarrow> string \<Rightarrow> string \<Rightarrow> UprEvent \<Rightarrow> Feed" where
  "PostStreamRequest feed bucket kvaddr m =
     feed\<lparr>backch := backch feed @
       [StreamRequestMsg
          \<lparr>csr_bucket = bucket, csr_kvaddr = kvaddr, csr_opaque = ev_Opaque m,
           csr_status = ev_Status m, csr_vbno = ev_VBucket m, csr_vbuuid = ev_VBuuid m,
           csr_seqno = ev_Seqno m\<rparr>]\<rparr>"

definition PostStreamEnd :: "Feed \<Rightarrow> string \<Rightarrow> string \<Rightarrow> UprEvent \<Rightarrow> Feed" where
  "PostStreamEnd feed bucket kvaddr m =
     feed\<lparr>backch := backch feed @
       [StreamEndMsg
          \<lparr>cse_bucket = bucket, cse_kvaddr = kvaddr, cse_opaque = ev_Opaque m,
           cse_status = ev_Status m, cse_vbno = ev_VBucket m\<rparr>]\<rparr>"

subsection \<open>Waiting for feedback\<close>

text \<open>
  The loop of \<open>waitOnFeedback\<close>. The back-channel of the model holds the feedback
  that arrives before the timer of the wait fires, in the order of arrival: the
  \<open>select\<close> receives from it while it has a message and takes the timer case once
  it is drained. \<open>callb\<close> is a closure over variables of the caller; the model hands
  it their values \<open>st\<close> and takes the new values back. The result is the error, what
  is left on the back-channel, the variables of the closure, and the skipped messages.
\<close>

fun feedbackLoop ::
  "(iface \<Rightarrow> 's \<Rightarrow> string \<times> 's) \<Rightarrow> iface list \<Rightarrow> 's \<Rightarrow> iface list \<Rightarrow>
   error option \<times> iface list \<times> 's \<times> iface list" where
  "feedbackLoop callb [] st msgs = (Some ErrorResponseTimeout, [], st, msgs)"
| "feedbackLoop callb (msg # rest) st msgs =
     (case callb msg st of
        (verdict, st') \<Rightarrow>
          if verdict = ''skip'' then feedbackLoop callb rest st' (msgs @ [msg])
          else if verdict = ''done'' then (None, rest, st', msgs)
          else feedbackLoop callb rest st' msgs)"

text \<open>
  After the loop every skipped message goes back on the back-channel as
  \<open>[]interface{}{msg}\<close>, where \<open>msg\<close> is the message as it was received, itself a
  slice: the element of the message sent back is that slice.
\<close>

definition waitOnFeedback ::
  "Feed \<Rightarrow> (iface \<Rightarrow> 's \<Rightarrow> string \<times> 's) \<Rightarrow> 's \<Rightarrow> Feed \<times> 's \<times> error option" where
  "waitOnFeedback feed callb st =
     (case feedbackLoop callb (backch feed) st [] of
        (err, rest, st', msgs) \<Rightarrow>
          (feed\<lparr>backch := rest @ map (\<lambda>msg. Slice [msg]) msgs\<rparr>, st', err))"

text \<open>
  The closure of \<open>waitStreamRequests\<close>; its variables are \<open>vbnos\<close> and \<open>rollTs\<close>.
\<close>

definition streamRequestCallb ::
  "32 word \<Rightarrow> string \<Rightarrow> iface \<Rightarrow> 16 word list \<times> TsVbuuid \<Rightarrow> string \<times> 16 word list \<times> TsVbuuid" where
  "streamRequestCallb opaque bucketn msg st =
     (case st of
        (vbnos, rollTs) \<Rightarrow>
          (case msg of
             StreamRequestMsg val \<Rightarrow>
               if csr_bucket val = bucketn \<and> csr_opaque val = opaque then
                 (let rollTs' =
                        (if csr_status val = ROLLBACK
                         then Append rollTs (csr_vbno val) (csr_seqno val) (csr_vbuuid val) 0 0
                         else rollTs);
                      vbnos' = RemoveUint16 (csr_vbno val) vbnos
                  in if length vbnos' = 0 then (''done'', vbnos', rollTs')
                     else (''ok'', vbnos', rollTs'))
               else (''skip'', vbnos, rollTs)
           | _ \<Rightarrow> (''skip'', vbnos, rollTs)))"

definition waitStreamRequests ::
  "Feed \<Rightarrow> 32 word \<Rightarrow> string \<Rightarrow> string \<Rightarrow> 16 word list \<Rightarrow> Feed \<times> TsVbuuid \<times> error option" where
  "waitStreamRequests feed opaque pooln bucketn vbnos =
     (let rollTs = NewTsVbuuid pooln bucketn in
      if length vbnos = 0 then (feed, rollTs, None)
      else
        (case waitOnFeedback feed (streamRequestCallb opaque bucketn) (vbnos, rollTs) of
           (feed', (vbnos', rollTs'), err) \<Rightarrow> (feed', rollTs', err)))"

text \<open>The closure of \<open>waitStreamEnds\<close>; its variable is \<open>vbnos\<close>.\<close>

definition streamEndCallb ::
  "32 word \<Rightarrow> string \<Rightarrow> iface \<Rightarrow> 16 word list \<Rightarrow> string \<times> 16 word list" where
  "streamEndCallb opaque bucketn msg vbnos =
     (case msg of
        StreamEndMsg val \<Rightarrow>
          if cse_bucket val = bucketn \<and> cse_opaque val = opaque then
            (let vbnos' = RemoveUint16 (cse_vbno val) vbnos
             in if length vbnos' = 0 then (''done'', vbnos') else (''ok'', vbnos'))
          else (''skip'', vbnos)
      | _ \<Rightarrow> (''skip'', vbnos))"

definition waitStreamEnds ::
  "Feed \<Rightarrow> 32 word \<Rightarrow> string \<Rightarrow> 16 word list \<Rightarrow> Feed \<times> error option" where
  "waitStreamEnds feed opaque bucketn vbnos =
     (if length vbnos = 0 then (feed, None)
      else
        (case waitOnFeedback feed (streamEndCallb opaque bucketn) vbnos of
           (feed', vbnos', err) \<Rightarrow> (feed', err)))"

text \<open>
  \<open>newOpaque\<close>: the clock shifted right by 40 bits and left by 16 bits, as a 64-bit
  value, then narrowed to 32 bits.
\<close>

definition newOpaque :: "FeedEnv \<Rightarrow> 32 word" where
  "newOpaque env = ucast (push_bit 16 (drop_bit 40 (UnixNano env)))"

subsection \<open>Upstream: buckets and feeders\<close>

text \<open>
  \<open>getBucket\<close>: nothing in the source file writes \<open>feed.buckets\<close>, so the cache
  misses and the bucket is connected under the pool name given.
\<close>

definition getBucket :: "FeedEnv \<Rightarrow> Feed \<Rightarrow> string \<Rightarrow> string \<Rightarrow> error + CbBucket" where
  "getBucket env feed pooln bucketn =
     (case buckets feed bucketn of
        None \<Rightarrow> ConnectBucket env (cluster feed) pooln bucketn
      | Some bucket \<Rightarrow> Inr bucket)"

text \<open>
  The loop of \<open>bucketDetails\<close> over the vbuckets. On an empty failover log it returns
  \<open>nil, nil, err\<close> with the \<open>err\<close> of \<open>GetFailoverLogs\<close>, which is \<open>nil\<close> there:
  no vbuckets and no error, the value \<open>None\<close> of the loop.
\<close>

fun vbuuidLoop :: "(16 word \<Rightarrow> (64 word \<times> 64 word) list) \<Rightarrow> 16 word list \<Rightarrow> 64 word list option" where
  "vbuuidLoop flogs [] = Some []"
| "vbuuidLoop flogs (vbno # rest) =
     (let flog = flogs vbno in
      if length flog < 1 then None
      else (case vbuuidLoop flogs rest of
              None \<Rightarrow> None
            | Some vbuuids \<Rightarrow> Some (fst (last flog) # vbuuids)))"

definition bucketDetails ::
  "FeedEnv \<Rightarrow> Feed \<Rightarrow> string \<Rightarrow> string \<Rightarrow> error + (16 word list \<times> 64 word list)" where
  "bucketDetails env feed pooln bucketn =
     (case getBucket env feed pooln bucketn of
        Inl err \<Rightarrow> Inl err
      | Inr bucket \<Rightarrow>
          (case Refresh env bucket of
             Some err \<Rightarrow> Inl err
           | None \<Rightarrow>
               (case GetVBmap env bucket (kvaddrs feed) of
                  Inl err \<Rightarrow> Inl err
                | Inr m \<Rightarrow>
                    (let vbnos = concat (map snd m) in
                     case GetFailoverLogs env bucket vbnos of
                       Inl err \<Rightarrow> Inl err
                     | Inr flogs \<Rightarrow>
                         (case vbuuidLoop flogs vbnos of
                            None \<Rightarrow> Inr ([], [])
                          | Some vbuuids \<Rightarrow> Inr (vbnos, vbuuids))))))"

text \<open>
  \<open>bucketFeed\<close> takes the pool and the bucket from the timestamp it is given. The
  calls on the feeder start or end streams at the producer; the topic state is not
  touched.
\<close>

definition bucketFeed ::
  "FeedEnv \<Rightarrow> Feed \<Rightarrow> 32 word \<Rightarrow> bool \<Rightarrow> bool \<Rightarrow> TsVbuuid \<Rightarrow> error + BucketFeeder" where
  "bucketFeed env feed opaque stop start reqTs =
     (let pooln = Pool reqTs; bucketn = Bucket reqTs in
      case bucketDetails env feed pooln bucketn of
        Inl err \<Rightarrow> Inl err
      | Inr (vbnos, vbuuids) \<Rightarrow>
          if start \<and> VerifyBranch env reqTs vbnos vbuuids = False then Inl ErrorInvalidVbucketBranch
          else
            (let reqTs' = SelectByVbuckets env reqTs vbnos in
             case (case feeders feed bucketn of
                     Some feeder \<Rightarrow> Inr feeder
                   | None \<Rightarrow>
                       (case getBucket env feed pooln bucketn of
                          Inl err \<Rightarrow> Inl err
                        | Inr bucket \<Rightarrow> OpenBucketFeed env bucket)) of
               Inl err \<Rightarrow> Inl err
             | Inr feeder \<Rightarrow>
                 (case (if stop then EndVbStreams env feeder opaque reqTs' else None) of
                    Some err \<Rightarrow> Inl err
                  | None \<Rightarrow>
                      (case (if start then StartVbStreams env feeder opaque reqTs' else None) of
                         Some err \<Rightarrow> Inl err
                       | None \<Rightarrow> Inr feeder))))"

text \<open>\<open>startDataPath\<close>: one data path for each address of \<open>feed.kvaddrs\<close>.\<close>

definition startDataPath :: "Feed \<Rightarrow> string \<Rightarrow> BucketFeeder \<Rightarrow> TsVbuuid \<Rightarrow> (string \<rightharpoonup> KVData)" where
  "startDataPath feed bucketn feeder reqTs =
     foldl (\<lambda>m kvaddr. m(kvaddr \<mapsto> \<lparr>kv_bucket = bucketn, kv_kvaddr = kvaddr, kv_reqTs = reqTs\<rparr>))
       Map.empty (kvaddrs feed)"

subsection \<open>Downstream: subscribers, engines and endpoints\<close>

definition subscribers ::
  "'a Subscriber_scheme \<Rightarrow> error + ((64 word \<times> Evaluator) list \<times> (64 word \<times> Router) list)" where
  "subscribers req =
     (case GetEvaluators req of
        Inl err \<Rightarrow> Inl err
      | Inr evaluators \<Rightarrow>
          (case GetRouters req of
             Inl err \<Rightarrow> Inl err
           | Inr routers \<Rightarrow>
               if length evaluators \<noteq> length routers then Inl ErrorInconsistentFeed
               else if list_ex (\<lambda>(uuid, evaluator). map_of routers uuid = None) evaluators
               then Inl ErrorInconsistentFeed
               else Inr (evaluators, routers)))"

text \<open>
  The body shared by \<open>startEndpoints\<close> and \<open>repairEndpoints\<close>: an endpoint that is
  absent or does not answer the ping is made anew by the factory.
\<close>

fun endpointLoop :: "FeedEnv \<Rightarrow> string list \<Rightarrow> Feed \<Rightarrow> Feed \<times> error option" where
  "endpointLoop env [] feed = (feed, None)"
| "endpointLoop env (raddr # rest) feed =
     (if (case endpoints feed raddr of None \<Rightarrow> True | Some endpoint \<Rightarrow> \<not> Ping env endpoint) then
        (case epFactory env (topic feed) raddr of
           Inl err \<Rightarrow> (feed, Some err)
         | Inr (Some endpoint) \<Rightarrow>
             endpointLoop env rest (feed\<lparr>endpoints := (endpoints feed)(raddr \<mapsto> endpoint)\<rparr>)
         | Inr None \<Rightarrow> endpointLoop env rest feed)
      else endpointLoop env rest feed)"

fun startEndpoints :: "FeedEnv \<Rightarrow> (64 word \<times> Router) list \<Rightarrow> Feed \<Rightarrow> Feed \<times> error option" where
  "startEndpoints env [] feed = (feed, None)"
| "startEndpoints env ((uuid, router) # rest) feed =
     (case endpointLoop env (rt_Endpoints router) feed of
        (feed', Some err) \<Rightarrow> (feed', Some err)
      | (feed', None) \<Rightarrow> startEndpoints env rest feed')"

text \<open>The loop of \<open>processSubscribers\<close> that installs the engines.\<close>

fun installEngines ::
  "(64 word \<times> Router) list \<Rightarrow> (64 word \<times> Evaluator) list \<Rightarrow> Feed \<Rightarrow> Feed" where
  "installEngines routers [] feed = feed"
| "installEngines routers ((uuid, evaluator) # rest) feed =
     (let bucketn = ev_Bucket evaluator;
          m = (case engines feed bucketn of None \<Rightarrow> Map.empty | Some m \<Rightarrow> m);
          engine = \<lparr>eng_uuid = uuid, eng_evaluator = evaluator, eng_router = map_of routers uuid\<rparr>
      in installEngines routers rest
           (feed\<lparr>engines := (engines feed)(bucketn \<mapsto> m(uuid \<mapsto> engine))\<rparr>))"

definition processSubscribers :: "FeedEnv \<Rightarrow> Feed \<Rightarrow> 'a Subscriber_scheme \<Rightarrow> Feed \<times> error option" where
  "processSubscribers env feed req =
     (case subscribers req of
        Inl err \<Rightarrow> (feed, Some err)
      | Inr (evaluators, routers) \<Rightarrow>
          (case startEndpoints env routers feed of
             (feed', Some err) \<Rightarrow> (feed', Some err)
           | (feed', None) \<Rightarrow> (installEngines routers evaluators feed', None)))"

subsection \<open>Control operations\<close>

text \<open>
  Each operation gives the feed on return and the error it returns. The calls on a
  data path (\<open>UpdateTs\<close>, \<open>AddEngines\<close>, \<open>DeleteEngines\<close>, \<open>Close\<close>) are messages to
  another actor and leave the maps of the feed as they are.

  The loop of \<open>start\<close>. \<open>pooln\<close> and \<open>bucketn\<close> are both \<open>reqTs.GetBucket()\<close>.
\<close>

fun startLoop :: "FeedEnv \<Rightarrow> 32 word \<Rightarrow> TsVbuuid list \<Rightarrow> Feed \<Rightarrow> Feed \<times> error option" where
  "startLoop env opaque [] feed = (feed, None)"
| "startLoop env opaque (reqTs # rest) feed =
     (let pooln = Bucket reqTs; bucketn = Bucket reqTs in
      case bucketFeed env feed opaque False True reqTs of
        Inl err \<Rightarrow> (feed, Some err)
      | Inr feeder \<Rightarrow>
          (let m = startDataPath feed bucketn feeder reqTs;
               vbnos = Vbno32to16 (Vbnos reqTs)
           in case waitStreamRequests feed opaque pooln bucketn vbnos of
                (feed', rollTs, Some err) \<Rightarrow> (feed', Some err)
              | (feed', rollTs, None) \<Rightarrow>
                  startLoop env opaque rest
                    (feed'\<lparr>reqTss := (reqTss feed')(bucketn \<mapsto> reqTs),
                           rollTss := (rollTss feed')(bucketn \<mapsto> rollTs),
                           feeders := (feeders feed')(bucketn \<mapsto> feeder),
                           kvdata := (kvdata feed')(bucketn \<mapsto> m)\<rparr>)))"

definition start :: "FeedEnv \<Rightarrow> Feed \<Rightarrow> MutationTopicRequest \<Rightarrow> Feed \<times> error option" where
  "start env feed req =
     (case processSubscribers env feed req of
        (feed', Some err) \<Rightarrow> (feed', Some err)
      | (feed', None) \<Rightarrow> startLoop env (newOpaque env) (mtr_ReqTimestamps req) feed')"

fun restartLoop :: "FeedEnv \<Rightarrow> 32 word \<Rightarrow> TsVbuuid list \<Rightarrow> Feed \<Rightarrow> Feed \<times> error option" where
  "restartLoop env opaque [] feed = (feed, None)"
| "restartLoop env opaque (restartTs # rest) feed =
     (let pooln = Pool restartTs; bucketn = Bucket restartTs in
      case (reqTss feed bucketn, kvdata feed bucketn) of
        (Some reqTs, Some kvd) \<Rightarrow>
          (case bucketFeed env feed opaque True False restartTs of
             Inl err \<Rightarrow> (feed, Some err)
           | Inr feeder0 \<Rightarrow>
               (let vbnos = Vbno32to16 (Vbnos restartTs) in
                case waitStreamEnds feed opaque bucketn vbnos of
                  (feed1, Some err) \<Rightarrow> (feed1, Some err)
                | (feed1, None) \<Rightarrow>
                    (case bucketFeed env feed1 opaque False True restartTs of
                       Inl err \<Rightarrow> (feed1, Some err)
                     | Inr feeder1 \<Rightarrow>
                         (case waitStreamRequests feed1 opaque pooln bucketn vbnos of
                            (feed2, rollTs, Some err) \<Rightarrow> (feed2, Some err)
                          | (feed2, rollTs, None) \<Rightarrow>
                              restartLoop env opaque rest
                                (feed2\<lparr>reqTss := (reqTss feed2)(bucketn \<mapsto> Union env reqTs restartTs),
                                       rollTss := (rollTss feed2)(bucketn \<mapsto> rollTs)\<rparr>)))))
      | _ \<Rightarrow> (feed, Some ErrorInvalidBucket))"

definition restartVbuckets :: "FeedEnv \<Rightarrow> Feed \<Rightarrow> RestartVbucketsRequest \<Rightarrow> Feed \<times> error option" where
  "restartVbuckets env feed req = restartLoop env (newOpaque env) (RestartTimestamps req) feed"

fun shutdownLoop :: "FeedEnv \<Rightarrow> 32 word \<Rightarrow> TsVbuuid list \<Rightarrow> Feed \<Rightarrow> Feed \<times> error option" where
  "shutdownLoop env opaque [] feed = (feed, None)"
| "shutdownLoop env opaque (shutTs # rest) feed =
     (let bucketn = Bucket shutTs in
      case reqTss feed bucketn of
        None \<Rightarrow> (feed, Some ErrorInvalidBucket)
      | Some reqTs \<Rightarrow>
          (case bucketFeed env feed opaque True False shutTs of
             Inl err \<Rightarrow> (feed, Some err)
           | Inr feeder \<Rightarrow>
               (let vbnos = Vbno32to16 (Vbnos shutTs) in
                case waitStreamEnds feed opaque bucketn vbnos of
                  (feed', Some err) \<Rightarrow> (feed', Some err)
                | (feed', None) \<Rightarrow>
                    shutdownLoop env opaque rest
                      (feed'\<lparr>reqTss := (reqTss feed')(bucketn \<mapsto> FilterByVbuckets env reqTs vbnos)\<rparr>))))"

definition shutdownVbuckets :: "FeedEnv \<Rightarrow> Feed \<Rightarrow> ShutdownVbucketsRequest \<Rightarrow> Feed \<times> error option" where
  "shutdownVbuckets env feed req = shutdownLoop env (newOpaque env) (ShutdownTimestamps req) feed"

text \<open>The loop of \<open>addBuckets\<close>: that of \<open>start\<close>, with \<open>pooln\<close> bound to \<open>reqTs.GetPool()\<close>.\<close>

fun addBucketsLoop :: "FeedEnv \<Rightarrow> 32 word \<Rightarrow> TsVbuuid list \<Rightarrow> Feed \<Rightarrow> Feed \<times> error option" where
  "addBucketsLoop env opaque [] feed = (feed, None)"
| "addBucketsLoop env opaque (reqTs # rest) feed =
     (let pooln = Pool reqTs; bucketn = Bucket reqTs in
      case bucketFeed env feed opaque False True reqTs of
        Inl err \<Rightarrow> (feed, Some err)
      | Inr feeder \<Rightarrow>
          (let m = startDataPath feed bucketn feeder reqTs;
               vbnos = Vbno32to16 (Vbnos reqTs)
           in case waitStreamRequests feed opaque pooln bucketn vbnos of
                (feed', rollTs, Some err) \<Rightarrow> (feed', Some err)
              | (feed', rollTs, None) \<Rightarrow>
                  addBucketsLoop env opaque rest
                    (feed'\<lparr>reqTss := (reqTss feed')(bucketn \<mapsto> reqTs),
                           rollTss := (rollTss feed')(bucketn \<mapsto> rollTs),
                           feeders := (feeders feed')(bucketn \<mapsto> feeder),
                           kvdata := (kvdata feed')(bucketn \<mapsto> m)\<rparr>)))"

definition addBuckets :: "FeedEnv \<Rightarrow> Feed \<Rightarrow> AddBucketsRequest \<Rightarrow> Feed \<times> error option" where
  "addBuckets env feed req =
     (case processSubscribers env feed req of
        (feed', Some err) \<Rightarrow> (feed', Some err)
      | (feed', None) \<Rightarrow> addBucketsLoop env (newOpaque env) (abr_ReqTimestamps req) feed')"

text \<open>
  The loop of \<open>delBuckets\<close>. Were the bucket in \<open>feed.kvdata\<close> and not in
  \<open>feed.reqTss\<close>, \<open>feed.reqTss[bucketn]\<close> would be a \<open>nil\<close> timestamp, on which the
  methods of the timestamp are then called: \<open>ErrPanic\<close>.
\<close>

fun delBucketsLoop :: "FeedEnv \<Rightarrow> 32 word \<Rightarrow> string list \<Rightarrow> Feed \<Rightarrow> Feed \<times> error option" where
  "delBucketsLoop env opaque [] feed = (feed, None)"
| "delBucketsLoop env opaque (bucketn # rest) feed =
     (case kvdata feed bucketn of
        None \<Rightarrow> (feed, Some ErrorInvalidBucket)
      | Some kvd \<Rightarrow>
          (case reqTss feed bucketn of
             None \<Rightarrow> (feed, Some ErrPanic)
           | Some reqTs \<Rightarrow>
               (case bucketFeed env feed opaque True False reqTs of
                  Inl err \<Rightarrow> (feed, Some err)
                | Inr feeder \<Rightarrow>
                    (let vbnos = Vbno32to16 (Vbnos reqTs) in
                     case waitStreamEnds feed opaque bucketn vbnos of
                       (feed', Some err) \<Rightarrow> (feed', Some err)
                     | (feed', None) \<Rightarrow>
                         delBucketsLoop env opaque rest
                           (feed'\<lparr>reqTss := (reqTss feed')(bucketn := None),
                                  rollTss := (rollTss feed')(bucketn := None),
                                  feeders := (feeders feed')(bucketn := None),
                                  kvdata := (kvdata feed')(bucketn := None),
                                  engines := (engines feed')(bucketn := None)\<rparr>)))))"

definition delBuckets :: "FeedEnv \<Rightarrow> Feed \<Rightarrow> DelBucketsRequest \<Rightarrow> Feed \<times> error option" where
  "delBuckets env feed req = delBucketsLoop env (newOpaque env) (Buckets req) feed"

definition addInstances :: "FeedEnv \<Rightarrow> Feed \<Rightarrow> 'a Subscriber_scheme \<Rightarrow> Feed \<times> error option" where
  "addInstances env feed req =
     (case processSubscribers env feed req of
        (feed', Some err) \<Rightarrow> (feed', Some err)
      | (feed', None) \<Rightarrow> (feed', None))"

text \<open>
  \<open>delInstances\<close>: for every bucket of \<open>feed.engines\<close> the engines whose id is not
  listed are kept, under the same bucket.
\<close>

definition delInstances :: "Feed \<Rightarrow> DelInstancesRequest \<Rightarrow> Feed \<times> error option" where
  "delInstances feed req =
     (let instanceIds = InstanceIds req;
          fengines = (\<lambda>bucketn.
             case engines feed bucketn of
               None \<Rightarrow> None
             | Some m \<Rightarrow> Some (\<lambda>uuid. if HasUint64 uuid instanceIds then None else m uuid))
      in (feed\<lparr>engines := fengines\<rparr>, None))"

definition repairEndpoints :: "FeedEnv \<Rightarrow> Feed \<Rightarrow> RepairEndpointsRequest \<Rightarrow> Feed \<times> error option" where
  "repairEndpoints env feed req =
     (case endpointLoop env (Endpoints req) feed of
        (feed', Some err) \<Rightarrow> (feed', Some err)
      | (feed', None) \<Rightarrow> (feed', None))"

section \<open>Notions used in the statements\<close>

text \<open>
  The three upstream maps of a feed have the same buckets as keys.
\<close>

definition sameKeys :: "Feed \<Rightarrow> bool" where
  "sameKeys feed \<longleftrightarrow>
     dom (feeders feed) = dom (reqTss feed) \<and> dom (kvdata feed) = dom (reqTss feed)"

text \<open>
  The stream-request feedback on a back-channel that a wait for \<open>(bucketn, opaque)\<close>
  matches, in the order of arrival; the part of it that reports a rollback; and a
  timestamp with one entry added for each feedback of a list.
\<close>

fun feedbackFor :: "32 word \<Rightarrow> string \<Rightarrow> iface list \<Rightarrow> controlStreamRequest list" where
  "feedbackFor opaque bucketn [] = []"
| "feedbackFor opaque bucketn (StreamRequestMsg val # rest) =
     (if csr_bucket val = bucketn \<and> csr_opaque val = opaque
      then val # feedbackFor opaque bucketn rest
      else feedbackFor opaque bucketn rest)"
| "feedbackFor opaque bucketn (msg # rest) = feedbackFor opaque bucketn rest"


definition appendAll :: "TsVbuuid \<Rightarrow> controlStreamRequest list \<Rightarrow> TsVbuuid" where
  "appendAll ts vals =
     ts\<lparr>Vbnos := Vbnos ts @ map (\<lambda>val. ucast (csr_vbno val)) vals,
        Seqnos := Seqnos ts @ map csr_seqno vals,
        Vbuuids := Vbuuids ts @ map csr_vbuuid vals,
        Snapshots := Snapshots ts @ map (\<lambda>val. (0, 0)) vals\<rparr>"

section \<open>Fixtures\<close>

text \<open>Concrete collaborators and states, for the theorems that run the model.\<close>

definition demoSMEnv :: SMEnv where
  "demoSMEnv =
     \<lparr>getPortForStreamId = (\<lambda>streamId. ''9100''),
      newStream = (\<lambda>streamId port.
         Inr \<lparr>stream_id = streamId, stream_port = port, stream_status = False\<rparr>),
      stream_start = (\<lambda>stream. None),
      GetLocalServiceHost = Inr ''localhost'',
      JoinHostPort = (\<lambda>host port. host @ '':'' @ port),
      GetTopologyAsInstanceProtoMsg = (\<lambda>bucket addr. Inl (ErrExternal ''no topology'')),
      GetAllDeletedIndexInstancesId = (\<lambda>bs. Inr []),
      GetChangeRecordAsProtoMsg = (\<lambda>changes addr.
         Inr (map (\<lambda>c. Instance (InstId (cr_instance c))) changes)),
      GetGlobalTopology = Inr [],
      getBucketFromTopologyKey = (\<lambda>key. key),
      FindIndexDefinition = (\<lambda>topology bucket name.
         find (\<lambda>d. defn_Bucket d = bucket \<and> defn_Name d = name) (topo_Definitions topology)),
      admin_AddIndexToStream = (\<lambda>streamId bs instances. None),
      admin_DeleteIndexFromStream = (\<lambda>streamId bs instances. None),
      admin_RestartStreamIfNecessary = (\<lambda>streamId timestamps. None)\<rparr>"

definition demoTopology :: "64 word \<Rightarrow> IndexState \<Rightarrow> IndexTopology" where
  "demoTopology version state =
     \<lparr>topo_Version = version, topo_Bucket = ''b1'',
      topo_Definitions = [\<lparr>defn_Bucket = ''b1'', defn_Name = ''d1'',
                           defn_Instances = [\<lparr>InstId = 43, State = state\<rparr>]\<rparr>]\<rparr>"

definition demoManager :: StreamManager where
  "demoManager =
     \<lparr>streams =
        [MAINT_STREAM \<mapsto> \<lparr>stream_id = MAINT_STREAM, stream_port = ''9100'', stream_status = True\<rparr>,
         INIT_STREAM \<mapsto> \<lparr>stream_id = INIT_STREAM, stream_port = ''9101'', stream_status = True\<rparr>],
      topologies = [''b1'' \<mapsto> demoTopology 1 INDEX_STATE_CREATED],
      isClosed = False, stopchClosed = False, adminCalls = []\<rparr>"

definition demoDefn :: IndexDefnDistribution where
  "demoDefn =
     \<lparr>defn_Bucket = ''b1'', defn_Name = ''d1'',
      defn_Instances = [\<lparr>InstId = 1, State = INDEX_STATE_READY\<rparr>,
                        \<lparr>InstId = 2, State = INDEX_STATE_CREATED\<rparr>]\<rparr>"

definition twoInstTopology :: "64 word \<Rightarrow> IndexState \<Rightarrow> IndexTopology" where
  "twoInstTopology version state =
     \<lparr>topo_Version = version, topo_Bucket = ''b1'',
      topo_Definitions = [\<lparr>defn_Bucket = ''b1'', defn_Name = ''d1'',
                           defn_Instances = [\<lparr>InstId = 1, State = state\<rparr>,
                                             \<lparr>InstId = 2, State = INDEX_STATE_READY\<rparr>]\<rparr>]\<rparr>"

definition demoCancelCb :: CancelCb where
  "demoCancelCb = NewCancelCallback 0 \<lparr>Timeout = Some 1, CancelCh = Some 2\<rparr>"

definition demoFeedEnv :: FeedEnv where
  "demoFeedEnv =
     \<lparr>ConnectBucket = (\<lambda>clustern pooln bucketn.
         if pooln = ''default'' then Inr \<lparr>cb_pool = pooln, cb_name = bucketn\<rparr>
         else Inl (ErrExternal ''no such pool'')),
      Refresh = (\<lambda>bucket. None),
      GetVBmap = (\<lambda>bucket kvs. Inr [(''kv1'', [0, 1, 2])]),
      GetFailoverLogs = (\<lambda>bucket vbnos. Inr (\<lambda>vbno. [(0xAA, 0)])),
      OpenBucketFeed = (\<lambda>bucket. Inr (BucketFeeder 0)),
      StartVbStreams = (\<lambda>feeder opaque ts. None),
      EndVbStreams = (\<lambda>feeder opaque ts. None),
      epFactory = (\<lambda>topicn raddr. Inr (Some \<lparr>ep_raddr = raddr, ep_serial = 0\<rparr>)),
      Ping = (\<lambda>endpoint. True),
      VerifyBranch = (\<lambda>ts vbnos vbuuids. True),
      SelectByVbuckets = (\<lambda>ts vbnos. ts),
      Union = (\<lambda>ts other. ts),
      FilterByVbuckets = (\<lambda>ts vbnos. ts),
      UnixNano = 0\<rparr>"

definition demoTs :: "string \<Rightarrow> string \<Rightarrow> TsVbuuid" where
  "demoTs pooln bucketn =
     \<lparr>Pool = pooln, Bucket = bucketn, Vbnos = [0, 1, 2], Seqnos = [100, 100, 100],
      Vbuuids = [0xAA, 0xAA, 0xAA], Snapshots = [(0, 0), (0, 0), (0, 0)]\<rparr>"

definition demoEvent :: "16 word \<Rightarrow> 16 word \<Rightarrow> 64 word \<Rightarrow> UprEvent" where
  "demoEvent vbno status seqno =
     \<lparr>ev_Opaque = 0, ev_Status = status, ev_VBucket = vbno, ev_VBuuid = 0xAA, ev_Seqno = seqno\<rparr>"

definition demoFeed :: Feed where
  "demoFeed = NewFeed ''maint'' ''cluster'' [''kv1'']"

definition demoStartReq :: "string \<Rightarrow> string \<Rightarrow> MutationTopicRequest" where
  "demoStartReq pooln engineBucket =
     \<lparr>GetEvaluators = Inr [(42, \<lparr>ev_Bucket = engineBucket\<rparr>)],
      GetRouters = Inr [(42, \<lparr>rt_Endpoints = [''ep1'']\<rparr>)],
      mtr_ReqTimestamps = [demoTs pooln ''b1'']\<rparr>"

text \<open>
  The back-channel after the feedback to a start of vbuckets 0, 1 and 2 of bucket b1:
  success for 0 and 1 and a rollback of vbucket 2 to sequence number 50; and the same
  with the feedback of vbucket 2 missing.
\<close>

definition rollbackFeed :: Feed where
  "rollbackFeed =
     PostStreamRequest
       (PostStreamRequest
          (PostStreamRequest demoFeed ''b1'' ''kv1'' (demoEvent 0 SUCCESS 100))
          ''b1'' ''kv1'' (demoEvent 1 SUCCESS 100))
       ''b1'' ''kv1'' (demoEvent 2 ROLLBACK 50)"

definition timeoutFeed :: Feed where
  "timeoutFeed =
     PostStreamRequest
       (PostStreamRequest demoFeed ''b1'' ''kv1'' (demoEvent 0 SUCCESS 100))
       ''b1'' ''kv1'' (demoEvent 1 SUCCESS 100)"

text \<open>
  A back-channel that holds feedback for bucket b2 ahead of the feedback for bucket b1.
\<close>

definition strayFeed :: Feed where
  "strayFeed =
     PostStreamRequest
       (PostStreamRequest demoFeed ''b2'' ''kv1'' (demoEvent 0 SUCCESS 100))
       ''b1'' ''kv1'' (demoEvent 0 SUCCESS 100)"

text \<open>A start request with timestamps for the buckets b1 and b2, in this order.\<close>

definition twoBucketReq :: MutationTopicRequest where
  "twoBucketReq =
     \<lparr>GetEvaluators = Inr [(42, \<lparr>ev_Bucket = ''b1''\<rparr>)],
      GetRouters = Inr [(42, \<lparr>rt_Endpoints = [''ep1'']\<rparr>)],
      mtr_ReqTimestamps = [demoTs ''default'' ''b1'', demoTs ''default'' ''b2'']\<rparr>"

definition demoDelReq :: DelBucketsRequest where
  "demoDelReq = \<lparr>Buckets = [''b1'']\<rparr>"

definition streamEnds :: "iface list" where
  "streamEnds =
     backch (PostStreamEnd (PostStreamEnd (PostStreamEnd demoFeed
       ''b1'' ''kv1'' (demoEvent 0 SUCCESS 0)) ''b1'' ''kv1'' (demoEvent 1 SUCCESS 0))
       ''b1'' ''kv1'' (demoEvent 2 SUCCESS 0))"

lemmas demo_defs = demoFeedEnv_def demoTs_def demoEvent_def demoFeed_def demoStartReq_def
  twoBucketReq_def
  rollbackFeed_def timeoutFeed_def NewFeed_def PostStreamRequest_def PostStreamEnd_def
  SUCCESS_def ROLLBACK_def

lemmas feed_defs = start_def processSubscribers_def subscribers_def newOpaque_def
  bucketFeed_def bucketDetails_def getBucket_def startDataPath_def Vbno32to16_def
  waitStreamRequests_def waitOnFeedback_def streamRequestCallb_def RemoveUint16_def
  NewTsVbuuid_def Append_def waitStreamEnds_def streamEndCallb_def Let_def

lemmas del_defs = delBuckets_def demoDelReq_def streamEnds_def

section \<open>Properties of the Stream Manager\<close>

lemma isClosed_Close: "isClosed (Close s)"
  by (simp add: Close_def)

text \<open>
  C10. Once \<open>Close\<close> has run, each of \<open>StartStream\<close>, \<open>AddIndexForAllBuckets\<close>,
  \<open>AddIndexForBuckets\<close>, \<open>DeleteIndexForBuckets\<close>, \<open>RestartStreamIfNecessary\<close> and
  \<open>CloseStream\<close> returns \<open>nil\<close> and leaves the manager as it is, the list of admin
  calls included: no admin call is made and no error such as \<open>streamNotOpen\<close> is
  returned.
\<close>

theorem closed_manager_returns_nil:
  "StartStream env (Close s) streamId = (None, Close s) \<and>
   AddIndexForAllBuckets env (Close s) streamId = Some (None, Close s) \<and>
   AddIndexForBuckets env (Close s) streamId bs = (None, Close s) \<and>
   DeleteIndexForBuckets env (Close s) streamId bs = (None, Close s) \<and>
   RestartStreamIfNecessary env (Close s) streamId timestamps = (None, Close s) \<and>
   CloseStream (Close s) streamId = (None, Close s)"
  by (simp add: isClosed_Close StartStream_def AddIndexForAllBuckets_def AddIndexForBuckets_def
      DeleteIndexForBuckets_def RestartStreamIfNecessary_def CloseStream_def)

lemma handleAddInstances_same_version:
  "topo_Version old = topo_Version newTopology \<Longrightarrow>
   handleAddInstances env s streamId bucket (Some old) newTopology fromState toState = (None, s)"
  by (simp add: handleAddInstances_def)

lemma handleDeleteInstances_same_version:
  "topo_Version old = topo_Version newTopology \<Longrightarrow>
   handleDeleteInstances env s streamId bucket (Some old) newTopology fromState toState = (None, s)"
  by (simp add: handleDeleteInstances_def)

text \<open>
  C6. When the topology that arrives for a bucket has the version of the topology last
  seen for that bucket, the handlers of the maintenance stream and of the init stream
  return without a call of \<open>AddIndexToStream\<close> or \<open>DeleteIndexFromStream\<close>: the
  manager is unchanged but for the topology recorded, and the list of admin calls is
  the one before.
\<close>

theorem same_version_no_admin_calls:
  assumes "topologies s (topo_Bucket newTopology) = Some old"
    and "topo_Version old = topo_Version newTopology"
  shows "handleTopologyChangeForMaintStream env s newTopology = (None, s) \<and>
         handleTopologyChangeForInitStream env s newTopology = (None, s) \<and>
         handleTopologyChange env s newTopology =
           (None, s\<lparr>topologies := (topologies s)(topo_Bucket newTopology \<mapsto> newTopology)\<rparr>) \<and>
         adminCalls (snd (handleTopologyChange env s newTopology)) = adminCalls s"
proof -
  have m: "handleTopologyChangeForMaintStream env s newTopology = (None, s)"
    using assms
    by (simp add: handleTopologyChangeForMaintStream_def handleAddInstances_same_version
        handleDeleteInstances_same_version)
  have i: "handleTopologyChangeForInitStream env s newTopology = (None, s)"
    using assms
    by (simp add: handleTopologyChangeForInitStream_def handleAddInstances_same_version
        handleDeleteInstances_same_version)
  show ?thesis
    by (simp add: m i handleTopologyChange_def)
qed

theorem same_version_no_admin_calls_witness:
  "topologies demoManager (topo_Bucket (demoTopology 1 INDEX_STATE_READY)) =
     Some (demoTopology 1 INDEX_STATE_CREATED) \<and>
   topo_Version (demoTopology 1 INDEX_STATE_CREATED) =
     topo_Version (demoTopology 1 INDEX_STATE_READY) \<and>
   handleTopologyChange demoSMEnv demoManager (demoTopology 1 INDEX_STATE_READY) =
     (None, demoManager\<lparr>topologies :=
        (topologies demoManager)(''b1'' \<mapsto> demoTopology 1 INDEX_STATE_READY)\<rparr>) \<and>
   adminCalls (snd (handleTopologyChange demoSMEnv demoManager (demoTopology 1 INDEX_STATE_READY))) = []"
  using same_version_no_admin_calls [of demoManager "demoTopology 1 INDEX_STATE_READY"
      "demoTopology 1 INDEX_STATE_CREATED" demoSMEnv]
  by (simp add: demoManager_def demoTopology_def)

text \<open>
  The value of \<open>add\<close> follows the diff rule: the state of the new instance is among
  \<open>toStates\<close>, and every old instance of the same id has its state among
  \<open>fromStates\<close> and different from the new state.
\<close>

lemma oldInstLoop_iff:
  "oldInstLoop fromStates newInst olds add \<longleftrightarrow>
     add \<and> (\<forall>oldInst \<in> set olds. InstId newInst = InstId oldInst \<longrightarrow>
              inState (State oldInst) fromStates \<and> State oldInst \<noteq> State newInst)"
  by (induction olds arbitrary: add) auto

lemma addDecision_rule:
  "addDecision oldDefn fromStates toStates newInst \<longleftrightarrow>
     inState (State newInst) toStates \<and>
     (\<forall>old. oldDefn = Some old \<longrightarrow>
        (\<forall>oldInst \<in> set (defn_Instances old). InstId oldInst = InstId newInst \<longrightarrow>
           inState (State oldInst) fromStates \<and> State oldInst \<noteq> State newInst))"
  by (cases oldDefn) (auto simp: addDecision_def oldInstLoop_iff)

lemma instLoop_eq:
  "instLoop oldDefn fromStates toStates insts (n, v) =
     (n + length (filter (addDecision oldDefn fromStates toStates) insts),
      if insts = [] then v else Some (last insts))"
  by (induction insts arbitrary: n v) auto

text \<open>
  What the change list holds: one record for each instance that passes the rule, and
  every one of them denotes the last instance of the new definition.
\<close>

lemma addInstancesToChangeList_eq:
  "addInstancesToChangeList oldDefn newDefn fromStates toStates =
     replicate (length (filter (addDecision oldDefn fromStates toStates) (defn_Instances newDefn)))
       \<lparr>cr_definition = newDefn, cr_instance = last (defn_Instances newDefn)\<rparr>"
  by (cases "defn_Instances newDefn = []") (simp_all add: addInstancesToChangeList_def instLoop_eq)

text \<open>
  The same at the admin interface: instance 1 of a definition goes from READY to
  DELETED while instance 2 stays READY, and the calls made on both streams ask for the
  deletion of instance 2.
\<close>

lemma delete_call_names_last_instance:
  "adminCalls (snd (handleTopologyChange demoSMEnv
      (demoManager\<lparr>topologies := [''b1'' \<mapsto> twoInstTopology 1 INDEX_STATE_READY]\<rparr>)
      (twoInstTopology 2 INDEX_STATE_DELETED))) =
     [DeleteIndexFromStream MAINT_STREAM [''b1''] [2], DeleteIndexFromStream INIT_STREAM [''b1''] [2]]"
  by (simp add: demoManager_def twoInstTopology_def demoSMEnv_def handleTopologyChange_def
      handleTopologyChangeForMaintStream_def handleTopologyChangeForInitStream_def
      handleAddInstances_def handleDeleteInstances_def streamOpen_def topologyChanges_def
      addInstancesToChangeList_def addDecision_def inState_def removeIndexInstances_def)

text \<open>
  C7. The diff rule says that a new instance is accumulated into the change list
  exactly when it passes the rule. For a definition with instance 1 in state READY
  followed by instance 2 in state CREATED, no old definition and \<open>toStates = [READY]\<close>,
  instance 1 passes the rule and instance 2 does not; the change list the function
  returns holds one record, and that record denotes instance 2.
\<close>

theorem changeList_holds_last_instance:
  "addDecision None None (Some [INDEX_STATE_READY]) \<lparr>InstId = 1, State = INDEX_STATE_READY\<rparr> \<and>
   \<not> addDecision None None (Some [INDEX_STATE_READY]) \<lparr>InstId = 2, State = INDEX_STATE_CREATED\<rparr> \<and>
   addInstancesToChangeList None demoDefn None (Some [INDEX_STATE_READY]) =
     [\<lparr>cr_definition = demoDefn, cr_instance = \<lparr>InstId = 2, State = INDEX_STATE_CREATED\<rparr>\<rparr>]"
  by (simp add: addInstancesToChangeList_def addDecision_def inState_def demoDefn_def)

section \<open>Properties of the cancel callback\<close>

text \<open>
  C8, as amended. A run takes exactly one of the cases whose signal is pending: the
  callback is called once with \<open>clientCancel\<close> when the cancel case is taken, once
  with \<open>scanTimedOut\<close> when the timeout case is taken, not at all when the done case
  is taken, and never more than once. When one signal is pending, the goroutine
  waiting for it, that signal wins.
\<close>

theorem Run_takes_one_pending_case:
  "(\<forall>(sig, calls) \<in> set (Run c pending).
      sig \<in> set pending \<and> caseChan c sig \<noteq> None \<and> length calls \<le> 1 \<and>
      calls = (case sig of
                 SigDone \<Rightarrow> []
               | SigCancel \<Rightarrow> [ErrClientCancel]
               | SigTimeout \<Rightarrow> [ErrScanTimedOut])) \<and>
   (caseChan c sig \<noteq> None \<longrightarrow> Run c [sig] = [(sig, runCase sig)])"
  by (auto simp: Run_def canProceed_def runCase_def split: signal.splits)

theorem Run_takes_one_pending_case_witness:
  "(SigCancel, [ErrClientCancel]) \<in> set (Run demoCancelCb [SigCancel]) \<and>
   caseChan demoCancelCb SigCancel \<noteq> None \<and>
   Run demoCancelCb [SigCancel] = [(SigCancel, [ErrClientCancel])]"
  using Run_takes_one_pending_case [of demoCancelCb "[SigCancel]" SigCancel]
  by (simp add: demoCancelCb_def NewCancelCallback_def caseChan_def runCase_def)

text \<open>
  C8 as stated fails: with the done signal raised first and the cancel signal raised
  before the goroutine reaches the \<open>select\<close>, the cancel case may be taken, and the
  callback is called although done came first.
\<close>

theorem later_signal_may_win:
  "hd [SigDone, SigCancel] = SigDone \<and>
   (SigCancel, [ErrClientCancel]) \<in> set (Run demoCancelCb [SigDone, SigCancel])"
  by (simp add: Run_def canProceed_def runCase_def demoCancelCb_def NewCancelCallback_def
      caseChan_def getTimeoutCh_def)

section \<open>Properties of the topic feed\<close>

subsection \<open>What an operation leaves untouched\<close>

lemma waitOnFeedback_frame:
  "waitOnFeedback feed callb st = (feed', st', err) \<Longrightarrow> \<exists>bc. feed' = feed\<lparr>backch := bc\<rparr>"
  by (auto simp: waitOnFeedback_def split: prod.splits)

lemma waitStreamRequests_frame:
  "waitStreamRequests feed opaque pooln bucketn vbnos = (feed', rollTs, err) \<Longrightarrow>
   \<exists>bc. feed' = feed\<lparr>backch := bc\<rparr>"
  by (auto simp: waitStreamRequests_def Let_def split: if_splits prod.splits
      dest!: waitOnFeedback_frame intro: exI [of _ "backch feed"])

lemma waitStreamEnds_frame:
  "waitStreamEnds feed opaque bucketn vbnos = (feed', err) \<Longrightarrow> \<exists>bc. feed' = feed\<lparr>backch := bc\<rparr>"
  by (auto simp: waitStreamEnds_def split: if_splits prod.splits
      dest!: waitOnFeedback_frame intro: exI [of _ "backch feed"])

lemma endpointLoop_frame:
  "endpointLoop env raddrs feed = (feed', err) \<Longrightarrow> \<exists>ep. feed' = feed\<lparr>endpoints := ep\<rparr>"
proof (induction raddrs arbitrary: feed)
  case Nil
  then show ?case by (auto intro: exI [of _ "endpoints feed"])
next
  case (Cons raddr rest)
  then show ?case
    by (fastforce simp: split: if_splits sum.splits option.splits intro: exI [of _ "endpoints feed"])
qed

lemma startEndpoints_frame:
  "startEndpoints env routers feed = (feed', err) \<Longrightarrow> \<exists>ep. feed' = feed\<lparr>endpoints := ep\<rparr>"
proof (induction routers arbitrary: feed)
  case Nil
  then show ?case by (auto intro: exI [of _ "endpoints feed"])
next
  case (Cons r rest)
  obtain uuid router where r: "r = (uuid, router)" by (cases r)
  obtain f1 e1 where l: "endpointLoop env (rt_Endpoints router) feed = (f1, e1)"
    by (cases "endpointLoop env (rt_Endpoints router) feed")
  from endpointLoop_frame [OF l] obtain ep1 where f1: "f1 = feed\<lparr>endpoints := ep1\<rparr>" by blast
  show ?case
  proof (cases e1)
    case None
    with Cons.prems r l have "startEndpoints env rest f1 = (feed', err)" by simp
    from Cons.IH [OF this] f1 show ?thesis by auto
  next
    case (Some e)
    with Cons.prems r l f1 show ?thesis by auto
  qed
qed

lemma installEngines_frame:
  "\<exists>eng. installEngines routers evaluators feed = feed\<lparr>engines := eng\<rparr>"
proof (induction evaluators arbitrary: feed)
  case Nil
  show ?case by (auto intro: exI [of _ "engines feed"])
next
  case (Cons e rest)
  obtain uuid ev where e: "e = (uuid, ev)" by (cases e)
  show ?case
    using Cons.IH [of "feed\<lparr>engines := (engines feed)(ev_Bucket ev \<mapsto>
        (case engines feed (ev_Bucket ev) of None \<Rightarrow> Map.empty | Some m \<Rightarrow> m)(uuid \<mapsto>
          \<lparr>eng_uuid = uuid, eng_evaluator = ev, eng_router = map_of routers uuid\<rparr>))\<rparr>"]
    by (auto simp: e Let_def)
qed

lemma processSubscribers_frame:
  "processSubscribers env feed req = (feed', err) \<Longrightarrow>
   \<exists>eng ep. feed' = feed\<lparr>engines := eng, endpoints := ep\<rparr>"
proof -
  assume p: "processSubscribers env feed req = (feed', err)"
  show ?thesis
  proof (cases "subscribers req")
    case (Inl e)
    with p have "feed' = feed" by (simp add: processSubscribers_def)
    then show ?thesis
      by (auto intro!: exI [of _ "engines feed"] exI [of _ "endpoints feed"])
  next
    case (Inr pr)
    obtain evaluators routers where pr: "pr = (evaluators, routers)" by (cases pr)
    obtain f1 e1 where s: "startEndpoints env routers feed = (f1, e1)"
      by (cases "startEndpoints env routers feed")
    from startEndpoints_frame [OF s] obtain ep where f1: "f1 = feed\<lparr>endpoints := ep\<rparr>" by blast
    from installEngines_frame [of routers evaluators f1]
    obtain eng where i: "installEngines routers evaluators f1 = f1\<lparr>engines := eng\<rparr>" by blast
    show ?thesis
    proof (cases e1)
      case None
      with p Inr pr s i f1 have "feed' = feed\<lparr>endpoints := ep, engines := eng\<rparr>"
        by (simp add: processSubscribers_def)
      then show ?thesis by (auto intro!: exI [of _ eng] exI [of _ ep])
    next
      case (Some e)
      with p Inr pr s f1 have "feed' = feed\<lparr>endpoints := ep\<rparr>"
        by (simp add: processSubscribers_def)
      then show ?thesis by (auto intro!: exI [of _ "engines feed"] exI [of _ ep])
    qed
  qed
qed

subsection \<open>Key sets of the per-bucket maps\<close>

lemma sameKeys_backch [simp]: "sameKeys (feed\<lparr>backch := bc\<rparr>) = sameKeys feed"
  by (simp add: sameKeys_def)

lemma sameKeys_engines_endpoints [simp]:
  "sameKeys (feed\<lparr>engines := eng, endpoints := ep\<rparr>) = sameKeys feed"
  by (simp add: sameKeys_def)

lemma sameKeys_endpoints [simp]: "sameKeys (feed\<lparr>endpoints := ep\<rparr>) = sameKeys feed"
  by (simp add: sameKeys_def)

lemma sameKeys_engines [simp]: "sameKeys (feed\<lparr>engines := eng\<rparr>) = sameKeys feed"
  by (simp add: sameKeys_def)

lemma sameKeys_install:
  "sameKeys feed \<Longrightarrow>
   sameKeys (feed\<lparr>reqTss := (reqTss feed)(b \<mapsto> ts), rollTss := r,
                  feeders := (feeders feed)(b \<mapsto> f), kvdata := (kvdata feed)(b \<mapsto> m)\<rparr>)"
  by (simp add: sameKeys_def)

lemma sameKeys_erase:
  "sameKeys feed \<Longrightarrow>
   sameKeys (feed\<lparr>reqTss := (reqTss feed)(b := None), rollTss := r,
                  feeders := (feeders feed)(b := None), kvdata := (kvdata feed)(b := None),
                  engines := e\<rparr>)"
  by (simp add: sameKeys_def)

lemma sameKeys_update:
  "sameKeys feed \<Longrightarrow> reqTss feed b = Some old \<Longrightarrow>
   sameKeys (feed\<lparr>reqTss := (reqTss feed)(b \<mapsto> ts), rollTss := r\<rparr>)"
  by (auto simp: sameKeys_def)

lemma sameKeys_update':
  "sameKeys feed \<Longrightarrow> reqTss feed b = Some old \<Longrightarrow>
   sameKeys (feed\<lparr>reqTss := (reqTss feed)(b \<mapsto> ts)\<rparr>)"
  by (auto simp: sameKeys_def)

lemma startLoop_sameKeys:
  "sameKeys feed \<Longrightarrow> sameKeys (fst (startLoop env opaque tss feed))"
proof (induction tss arbitrary: feed)
  case Nil
  then show ?case by simp
next
  case (Cons reqTs rest)
  show ?case
  proof (cases "bucketFeed env feed opaque False True reqTs")
    case (Inl e)
    with Cons.prems show ?thesis by simp
  next
    case (Inr feeder)
    obtain f1 rollTs e1 where
      w: "waitStreamRequests feed opaque (Bucket reqTs) (Bucket reqTs) (Vbno32to16 (Vbnos reqTs)) = (f1, rollTs, e1)"
      by (cases "waitStreamRequests feed opaque (Bucket reqTs) (Bucket reqTs) (Vbno32to16 (Vbnos reqTs))") auto
    from waitStreamRequests_frame [OF w] obtain bc where f1: "f1 = feed\<lparr>backch := bc\<rparr>" by blast
    with Cons.prems have k: "sameKeys f1" by simp
    show ?thesis
    proof (cases e1)
      case None
      with Inr w show ?thesis
        using Cons.IH [OF sameKeys_install [OF k]] by (simp add: Let_def)
    next
      case (Some e)
      with Inr w k show ?thesis by (simp add: Let_def)
    qed
  qed
qed

lemma addBucketsLoop_sameKeys:
  "sameKeys feed \<Longrightarrow> sameKeys (fst (addBucketsLoop env opaque tss feed))"
proof (induction tss arbitrary: feed)
  case Nil
  then show ?case by simp
next
  case (Cons reqTs rest)
  show ?case
  proof (cases "bucketFeed env feed opaque False True reqTs")
    case (Inl e)
    with Cons.prems show ?thesis by simp
  next
    case (Inr feeder)
    obtain f1 rollTs e1 where
      w: "waitStreamRequests feed opaque (Pool reqTs) (Bucket reqTs) (Vbno32to16 (Vbnos reqTs)) = (f1, rollTs, e1)"
      by (cases "waitStreamRequests feed opaque (Pool reqTs) (Bucket reqTs) (Vbno32to16 (Vbnos reqTs))") auto
    from waitStreamRequests_frame [OF w] obtain bc where f1: "f1 = feed\<lparr>backch := bc\<rparr>" by blast
    with Cons.prems have k: "sameKeys f1" by simp
    show ?thesis
    proof (cases e1)
      case None
      with Inr w show ?thesis
        using Cons.IH [OF sameKeys_install [OF k]] by (simp add: Let_def)
    next
      case (Some e)
      with Inr w k show ?thesis by (simp add: Let_def)
    qed
  qed
qed

lemma restartLoop_sameKeys:
  "sameKeys feed \<Longrightarrow> sameKeys (fst (restartLoop env opaque tss feed))"
proof (induction tss arbitrary: feed)
  case Nil
  then show ?case by simp
next
  case (Cons restartTs rest)
  let ?b = "Bucket restartTs"
  let ?vbnos = "Vbno32to16 (Vbnos restartTs)"
  show ?case
  proof (cases "reqTss feed ?b")
    case None
    with Cons.prems show ?thesis by simp
  next
    case (Some reqTs)
    note r = this
    show ?thesis
    proof (cases "kvdata feed ?b")
      case None
      with r Cons.prems show ?thesis by simp
    next
      case (Some kvd)
      note k = this
      show ?thesis
      proof (cases "bucketFeed env feed opaque True False restartTs")
        case (Inl e)
        with r k Cons.prems show ?thesis by simp
      next
        case (Inr feeder0)
        note bf0 = this
        obtain f1 e1 where w1: "waitStreamEnds feed opaque ?b ?vbnos = (f1, e1)"
          by (cases "waitStreamEnds feed opaque ?b ?vbnos")
        from waitStreamEnds_frame [OF w1] obtain bc1 where f1: "f1 = feed\<lparr>backch := bc1\<rparr>" by blast
        with Cons.prems have k1: "sameKeys f1" by simp
        show ?thesis
        proof (cases e1)
          case (Some e)
          with r k bf0 w1 k1 show ?thesis by (simp add: Let_def)
        next
          case None
          note e1 = this
          show ?thesis
          proof (cases "bucketFeed env f1 opaque False True restartTs")
            case (Inl e)
            with r k bf0 w1 e1 k1 show ?thesis by (simp add: Let_def)
          next
            case (Inr feeder1)
            note bf1 = this
            obtain f2 rollTs e2 where
              w2: "waitStreamRequests f1 opaque (Pool restartTs) ?b ?vbnos = (f2, rollTs, e2)"
              by (cases "waitStreamRequests f1 opaque (Pool restartTs) ?b ?vbnos") auto
            from waitStreamRequests_frame [OF w2] obtain bc2 where f2: "f2 = f1\<lparr>backch := bc2\<rparr>" by blast
            with k1 have k2: "sameKeys f2" by simp
            from f2 f1 r have r2: "reqTss f2 ?b = Some reqTs" by simp
            show ?thesis
            proof (cases e2)
              case (Some e)
              with r k bf0 w1 e1 bf1 w2 k2 show ?thesis by (simp add: Let_def)
            next
              case None
              with r k bf0 w1 e1 bf1 w2 show ?thesis
                using Cons.IH [OF sameKeys_update [OF k2 r2]] by (simp add: Let_def)
            qed
          qed
        qed
      qed
    qed
  qed
qed

lemma shutdownLoop_sameKeys:
  "sameKeys feed \<Longrightarrow> sameKeys (fst (shutdownLoop env opaque tss feed))"
proof (induction tss arbitrary: feed)
  case Nil
  then show ?case by simp
next
  case (Cons shutTs rest)
  let ?b = "Bucket shutTs"
  let ?vbnos = "Vbno32to16 (Vbnos shutTs)"
  show ?case
  proof (cases "reqTss feed ?b")
    case None
    with Cons.prems show ?thesis by simp
  next
    case (Some reqTs)
    note r = this
    show ?thesis
    proof (cases "bucketFeed env feed opaque True False shutTs")
      case (Inl e)
      with r Cons.prems show ?thesis by simp
    next
      case (Inr feeder)
      obtain f1 e1 where w1: "waitStreamEnds feed opaque ?b ?vbnos = (f1, e1)"
        by (cases "waitStreamEnds feed opaque ?b ?vbnos")
      from waitStreamEnds_frame [OF w1] obtain bc1 where f1: "f1 = feed\<lparr>backch := bc1\<rparr>" by blast
      with Cons.prems have k1: "sameKeys f1" by simp
      from f1 r have r1: "reqTss f1 ?b = Some reqTs" by simp
      show ?thesis
      proof (cases e1)
        case (Some e)
        with r Inr w1 k1 show ?thesis by (simp add: Let_def)
      next
        case None
        with r Inr w1 show ?thesis
          using Cons.IH [OF sameKeys_update' [OF k1 r1]] by (simp add: Let_def)
      qed
    qed
  qed
qed

lemma delBucketsLoop_sameKeys:
  "sameKeys feed \<Longrightarrow> sameKeys (fst (delBucketsLoop env opaque bs feed))"
proof (induction bs arbitrary: feed)
  case Nil
  then show ?case by simp
next
  case (Cons b rest)
  show ?case
  proof (cases "kvdata feed b")
    case None
    with Cons.prems show ?thesis by simp
  next
    case (Some kvd)
    note k = this
    show ?thesis
    proof (cases "reqTss feed b")
      case None
      with k Cons.prems show ?thesis by simp
    next
      case (Some reqTs)
      note r = this
      show ?thesis
      proof (cases "bucketFeed env feed opaque True False reqTs")
        case (Inl e)
        with k r Cons.prems show ?thesis by simp
      next
        case (Inr feeder)
        obtain f1 e1 where w1: "waitStreamEnds feed opaque b (Vbno32to16 (Vbnos reqTs)) = (f1, e1)"
          by (cases "waitStreamEnds feed opaque b (Vbno32to16 (Vbnos reqTs))")
        from waitStreamEnds_frame [OF w1] obtain bc1 where f1: "f1 = feed\<lparr>backch := bc1\<rparr>" by blast
        with Cons.prems have k1: "sameKeys f1" by simp
        show ?thesis
        proof (cases e1)
          case (Some e)
          with k r Inr w1 k1 show ?thesis by (simp add: Let_def)
        next
          case None
          with k r Inr w1 show ?thesis
            using Cons.IH [OF sameKeys_erase [OF k1]] by (simp add: Let_def)
        qed
      qed
    qed
  qed
qed

lemma processSubscribers_sameKeys:
  "sameKeys feed \<Longrightarrow> sameKeys (fst (processSubscribers env feed req))"
proof -
  assume k: "sameKeys feed"
  obtain f1 e1 where p: "processSubscribers env feed req = (f1, e1)"
    by (cases "processSubscribers env feed req")
  from processSubscribers_frame [OF p] k show ?thesis by (auto simp: p)
qed

lemma start_sameKeys: "sameKeys feed \<Longrightarrow> sameKeys (fst (start env feed req))"
proof -
  assume k: "sameKeys feed"
  obtain f1 e1 where p: "processSubscribers env feed req = (f1, e1)"
    by (cases "processSubscribers env feed req")
  from processSubscribers_sameKeys [OF k, of env req] p have k1: "sameKeys f1" by simp
  show ?thesis
    by (cases e1) (simp_all add: start_def p k1 startLoop_sameKeys)
qed

lemma addBuckets_sameKeys: "sameKeys feed \<Longrightarrow> sameKeys (fst (addBuckets env feed req))"
proof -
  assume k: "sameKeys feed"
  obtain f1 e1 where p: "processSubscribers env feed req = (f1, e1)"
    by (cases "processSubscribers env feed req")
  from processSubscribers_sameKeys [OF k, of env req] p have k1: "sameKeys f1" by simp
  show ?thesis
    by (cases e1) (simp_all add: addBuckets_def p k1 addBucketsLoop_sameKeys)
qed

lemma addInstances_sameKeys: "sameKeys feed \<Longrightarrow> sameKeys (fst (addInstances env feed req))"
proof -
  assume k: "sameKeys feed"
  obtain f1 e1 where p: "processSubscribers env feed req = (f1, e1)"
    by (cases "processSubscribers env feed req")
  from processSubscribers_sameKeys [OF k, of env req] p have k1: "sameKeys f1" by simp
  show ?thesis
    by (cases e1) (simp_all add: addInstances_def p k1)
qed

lemma repairEndpoints_sameKeys: "sameKeys feed \<Longrightarrow> sameKeys (fst (repairEndpoints env feed req))"
proof -
  assume k: "sameKeys feed"
  obtain f1 e1 where p: "endpointLoop env (Endpoints req) feed = (f1, e1)"
    by (cases "endpointLoop env (Endpoints req) feed")
  from endpointLoop_frame [OF p] k have k1: "sameKeys f1" by auto
  show ?thesis
    by (cases e1) (simp_all add: repairEndpoints_def p k1)
qed

text \<open>
  C1, as amended. A new feed has the same keys in \<open>feeders\<close>, \<open>reqTss\<close> and
  \<open>kvdata\<close>, and each of \<open>start\<close>, \<open>restartVbuckets\<close>, \<open>shutdownVbuckets\<close>,
  \<open>addBuckets\<close>, \<open>delBuckets\<close>, \<open>addInstances\<close>, \<open>delInstances\<close> and
  \<open>repairEndpoints\<close> keeps it so, whether it returns success or an error. The keys
  of \<open>engines\<close> are not part of the invariant.
\<close>

theorem upstream_maps_share_keys:
  "sameKeys (NewFeed topicn clustern kvs) \<and>
   (sameKeys feed \<longrightarrow>
      sameKeys (fst (start env feed mreq)) \<and>
      sameKeys (fst (restartVbuckets env feed rreq)) \<and>
      sameKeys (fst (shutdownVbuckets env feed sreq)) \<and>
      sameKeys (fst (addBuckets env feed areq)) \<and>
      sameKeys (fst (delBuckets env feed dreq)) \<and>
      sameKeys (fst (addInstances env feed ireq)) \<and>
      sameKeys (fst (delInstances feed xreq)) \<and>
      sameKeys (fst (repairEndpoints env feed ereq)))"
  by (simp add: start_sameKeys restartVbuckets_def restartLoop_sameKeys shutdownVbuckets_def
      shutdownLoop_sameKeys addBuckets_sameKeys delBuckets_def delBucketsLoop_sameKeys
      addInstances_sameKeys delInstances_def Let_def repairEndpoints_sameKeys)
     (simp add: sameKeys_def NewFeed_def)

theorem upstream_maps_share_keys_witness:
  "sameKeys rollbackFeed \<and>
   sameKeys (fst (start demoFeedEnv rollbackFeed (demoStartReq ''default'' ''b1''))) \<and>
   sameKeys (fst (start demoFeedEnv rollbackFeed (demoStartReq ''nopool'' ''b1''))) \<and>
   dom (reqTss (fst (start demoFeedEnv rollbackFeed (demoStartReq ''default'' ''b1'')))) = {''b1''}"
proof -
  have k: "sameKeys rollbackFeed"
    by (simp add: sameKeys_def demo_defs)
  have d: "dom (reqTss (fst (start demoFeedEnv rollbackFeed (demoStartReq ''default'' ''b1'')))) = {''b1''}"
    by (simp add: demo_defs feed_defs)
  from upstream_maps_share_keys [of "''maint''" "''cluster''" "[''kv1'']" rollbackFeed demoFeedEnv
      "demoStartReq ''default'' ''b1''"]
    upstream_maps_share_keys [of "''maint''" "''cluster''" "[''kv1'']" rollbackFeed demoFeedEnv
      "demoStartReq ''nopool'' ''b1''"] k d
  show ?thesis by blast
qed

text \<open>
  C1 as stated fails for \<open>engines\<close>. A start whose bucket cannot be connected
  returns the error after the engine of bucket b1 is installed: b1 is a key of
  \<open>engines\<close> and not of \<open>feeders\<close>. A start that succeeds with an engine for
  bucket b2 and a timestamp for bucket b1 only leaves b2 a key of \<open>engines\<close> and not
  of \<open>feeders\<close>.
\<close>

theorem engines_keys_differ:
  "snd (start demoFeedEnv rollbackFeed (demoStartReq ''nopool'' ''b1'')) =
     Some (ErrExternal ''no such pool'') \<and>
   ''b1'' \<in> dom (engines (fst (start demoFeedEnv rollbackFeed (demoStartReq ''nopool'' ''b1'')))) \<and>
   ''b1'' \<notin> dom (feeders (fst (start demoFeedEnv rollbackFeed (demoStartReq ''nopool'' ''b1'')))) \<and>
   snd (start demoFeedEnv rollbackFeed (demoStartReq ''default'' ''b2'')) = None \<and>
   ''b2'' \<in> dom (engines (fst (start demoFeedEnv rollbackFeed (demoStartReq ''default'' ''b2'')))) \<and>
   ''b2'' \<notin> dom (feeders (fst (start demoFeedEnv rollbackFeed (demoStartReq ''default'' ''b2''))))"
  by (simp add: demo_defs feed_defs)

subsection \<open>Feedback waits\<close>

lemma appendAll_Nil [simp]: "appendAll ts [] = ts"
  by (simp add: appendAll_def)


lemma callb_skip:
  "\<not> (\<exists>val. msg = StreamRequestMsg val \<and> csr_bucket val = bucketn \<and> csr_opaque val = opaque) \<Longrightarrow>
   streamRequestCallb opaque bucketn msg (vbnos, rollTs) = (''skip'', vbnos, rollTs)"
  by (cases msg) (auto simp: streamRequestCallb_def)

lemma callb_match:
  "csr_bucket val = bucketn \<Longrightarrow> csr_opaque val = opaque \<Longrightarrow>
   streamRequestCallb opaque bucketn (StreamRequestMsg val) (vbnos, rollTs) =
     (if RemoveUint16 (csr_vbno val) vbnos = [] then ''done'' else ''ok'',
      RemoveUint16 (csr_vbno val) vbnos,
      if csr_status val = ROLLBACK
      then Append rollTs (csr_vbno val) (csr_seqno val) (csr_vbuuid val) 0 0 else rollTs)"
  by (simp add: streamRequestCallb_def Let_def)

lemma feedbackFor_skip:
  "\<not> (\<exists>val. msg = StreamRequestMsg val \<and> csr_bucket val = bucketn \<and> csr_opaque val = opaque) \<Longrightarrow>
   feedbackFor opaque bucketn (msg # rest) = feedbackFor opaque bucketn rest"
  by (cases msg) auto

lemma set_RemoveUint16: "set (RemoveUint16 v vbnos) = set vbnos - {v}"
  by (auto simp: RemoveUint16_def)

lemma feedbackLoop_timeout:
  "vbnos \<noteq> [] \<Longrightarrow> \<not> set vbnos \<subseteq> csr_vbno ` set (feedbackFor opaque bucketn bc) \<Longrightarrow>
   fst (feedbackLoop (streamRequestCallb opaque bucketn) bc (vbnos, rollTs) msgs) =
     Some ErrorResponseTimeout"
proof (induction bc arbitrary: vbnos rollTs msgs)
  case Nil
  then show ?case by simp
next
  case (Cons msg rest)
  show ?case
  proof (cases "\<exists>val. msg = StreamRequestMsg val \<and> csr_bucket val = bucketn \<and> csr_opaque val = opaque")
    case False
    with Cons.prems have "\<not> set vbnos \<subseteq> csr_vbno ` set (feedbackFor opaque bucketn rest)"
      by (simp add: feedbackFor_skip)
    from Cons.IH [OF Cons.prems(1) this] False show ?thesis
      by (simp add: callb_skip)
  next
    case True
    then obtain val where msg: "msg = StreamRequestMsg val"
      and m: "csr_bucket val = bucketn" "csr_opaque val = opaque" by blast
    let ?vbnos' = "RemoveUint16 (csr_vbno val) vbnos"
    from Cons.prems(2) msg m
    have n: "\<not> set ?vbnos' \<subseteq> csr_vbno ` set (feedbackFor opaque bucketn rest)"
      by (auto simp: set_RemoveUint16)
    then have ne: "?vbnos' \<noteq> []" by auto
    from Cons.IH [OF ne n] msg m ne show ?thesis
      by (simp add: callb_match)
  qed
qed


lemma waitStreamRequests_timeout:
  assumes "\<not> set vbnos \<subseteq> csr_vbno ` set (feedbackFor opaque bucketn (backch feed))"
  shows "snd (snd (waitStreamRequests feed opaque pooln bucketn vbnos)) = Some ErrorResponseTimeout"
proof -
  from assms have ne: "vbnos \<noteq> []" by auto
  from feedbackLoop_timeout [OF ne assms, of "NewTsVbuuid pooln bucketn" "[]"] ne
  show ?thesis
    by (auto simp: waitStreamRequests_def waitOnFeedback_def Let_def split: prod.splits)
qed


lemma startLoop_append:
  "startLoop env opaque (pre @ rest) feed =
     (case startLoop env opaque pre feed of
        (feed', None) \<Rightarrow> startLoop env opaque rest feed'
      | (feed', Some err) \<Rightarrow> (feed', Some err))"
  by (induction pre arbitrary: feed) (auto simp: Let_def split: sum.splits prod.splits option.splits)

lemma startLoop_other_bucket:
  "b \<notin> Bucket ` set tss \<Longrightarrow>
   reqTss (fst (startLoop env opaque tss feed)) b = reqTss feed b \<and>
   rollTss (fst (startLoop env opaque tss feed)) b = rollTss feed b \<and>
   feeders (fst (startLoop env opaque tss feed)) b = feeders feed b \<and>
   kvdata (fst (startLoop env opaque tss feed)) b = kvdata feed b"
proof (induction tss arbitrary: feed)
  case Nil
  then show ?case by simp
next
  case (Cons reqTs rest)
  then have b: "b \<noteq> Bucket reqTs" and br: "b \<notin> Bucket ` set rest" by auto
  show ?case
  proof (cases "bucketFeed env feed opaque False True reqTs")
    case (Inl e)
    then show ?thesis by simp
  next
    case (Inr feeder)
    obtain f1 rollTs e1 where
      w: "waitStreamRequests feed opaque (Bucket reqTs) (Bucket reqTs) (Vbno32to16 (Vbnos reqTs)) = (f1, rollTs, e1)"
      by (cases "waitStreamRequests feed opaque (Bucket reqTs) (Bucket reqTs) (Vbno32to16 (Vbnos reqTs))") auto
    from waitStreamRequests_frame [OF w] obtain bc where f1: "f1 = feed\<lparr>backch := bc\<rparr>" by blast
    show ?thesis
    proof (cases e1)
      case None
      with Inr w f1 b show ?thesis
        using Cons.IH [OF br] by (simp add: Let_def)
    next
      case (Some e)
      with Inr w f1 show ?thesis by (simp add: Let_def)
    qed
  qed
qed

text \<open>
  What goes back on the back-channel is a slice around the message received, and no
  wait matches a slice.
\<close>

lemma Slice_is_skipped:
  "streamRequestCallb opaque bucketn (Slice xs) st = (''skip'', st) \<and>
   streamEndCallb opaque bucketn (Slice xs) vbnos = (''skip'', vbnos)"
  by (cases st) (simp add: streamRequestCallb_def streamEndCallb_def)

lemma waitOnFeedback_requeues_slices:
  "waitOnFeedback feed callb st = (feed', st', err) \<Longrightarrow>
   \<exists>rest msgs. backch feed' = rest @ map (\<lambda>msg. Slice [msg]) msgs"
  by (auto simp: waitOnFeedback_def split: prod.splits)

text \<open>
  C2. The claim says that a stream-request feedback sent back to the back-channel is
  matched by the later wait for its bucket and opaque. Here the back-channel holds
  feedback for (b2, 0) ahead of feedback for (b1, 0). The wait for (b1, 0, vbucket 0)
  succeeds and sends the feedback of b2 back, wrapped in one more slice; the wait for
  (b2, 0, vbucket 0) that follows does not match it and ends with the timeout.
\<close>

theorem requeued_feedback_is_not_matched:
  "backch strayFeed =
     [StreamRequestMsg \<lparr>csr_bucket = ''b2'', csr_kvaddr = ''kv1'', csr_opaque = 0, csr_status = 0,
        csr_vbno = 0, csr_vbuuid = 0xAA, csr_seqno = 100\<rparr>,
      StreamRequestMsg \<lparr>csr_bucket = ''b1'', csr_kvaddr = ''kv1'', csr_opaque = 0, csr_status = 0,
        csr_vbno = 0, csr_vbuuid = 0xAA, csr_seqno = 100\<rparr>] \<and>
   snd (snd (waitStreamRequests strayFeed 0 ''default'' ''b1'' [0])) = None \<and>
   backch (fst (waitStreamRequests strayFeed 0 ''default'' ''b1'' [0])) =
     [Slice [StreamRequestMsg \<lparr>csr_bucket = ''b2'', csr_kvaddr = ''kv1'', csr_opaque = 0,
        csr_status = 0, csr_vbno = 0, csr_vbuuid = 0xAA, csr_seqno = 100\<rparr>]] \<and>
   snd (snd (waitStreamRequests (fst (waitStreamRequests strayFeed 0 ''default'' ''b1'' [0]))
          0 ''default'' ''b2'' [0])) = Some ErrorResponseTimeout"
  by (simp add: strayFeed_def demo_defs feed_defs)



text \<open>
  C4, as amended. Let the engines and endpoints of a start request have been
  installed and the buckets before \<open>reqTs\<close> in the request have been started,
  giving the feed \<open>feed2\<close>, and let some requested vbucket of \<open>reqTs\<close> have no
  stream-request feedback of the bucket and the opaque on the back-channel. Then
  \<open>start\<close> returns \<open>responseTimeout\<close>, and \<open>reqTss\<close>, \<open>rollTss\<close>,
  \<open>feeders\<close>, \<open>kvdata\<close>, \<open>engines\<close> and \<open>endpoints\<close> are those of \<open>feed2\<close>:
  nothing is recorded for the bucket whose wait timed out (when the bucket does not
  occur earlier in the request its entries in the four upstream maps are those from
  before the start), and what was installed before that wait stays.
\<close>

theorem start_timeout_leaves_bucket:
  assumes p: "processSubscribers env feed req = (feed1, None)"
    and r: "mtr_ReqTimestamps req = pre @ reqTs # post"
    and l: "startLoop env (newOpaque env) pre feed1 = (feed2, None)"
    and bf: "bucketFeed env feed2 (newOpaque env) False True reqTs = Inr feeder"
    and n: "\<not> set (Vbno32to16 (Vbnos reqTs)) \<subseteq>
              csr_vbno ` set (feedbackFor (newOpaque env) (Bucket reqTs) (backch feed2))"
  shows "snd (start env feed req) = Some ErrorResponseTimeout \<and>
         reqTss (fst (start env feed req)) = reqTss feed2 \<and>
         rollTss (fst (start env feed req)) = rollTss feed2 \<and>
         feeders (fst (start env feed req)) = feeders feed2 \<and>
         kvdata (fst (start env feed req)) = kvdata feed2 \<and>
         engines (fst (start env feed req)) = engines feed2 \<and>
         endpoints (fst (start env feed req)) = endpoints feed2 \<and>
         (Bucket reqTs \<notin> Bucket ` set pre \<longrightarrow>
            reqTss (fst (start env feed req)) (Bucket reqTs) = reqTss feed (Bucket reqTs) \<and>
            rollTss (fst (start env feed req)) (Bucket reqTs) = rollTss feed (Bucket reqTs) \<and>
            feeders (fst (start env feed req)) (Bucket reqTs) = feeders feed (Bucket reqTs) \<and>
            kvdata (fst (start env feed req)) (Bucket reqTs) = kvdata feed (Bucket reqTs))"
proof -
  let ?o = "newOpaque env"
  obtain f3 rollTs e3 where
    w: "waitStreamRequests feed2 ?o (Bucket reqTs) (Bucket reqTs) (Vbno32to16 (Vbnos reqTs)) = (f3, rollTs, e3)"
    by (cases "waitStreamRequests feed2 ?o (Bucket reqTs) (Bucket reqTs) (Vbno32to16 (Vbnos reqTs))") auto
  from waitStreamRequests_timeout [OF n, of "Bucket reqTs"] w
  have e3: "e3 = Some ErrorResponseTimeout" by simp
  from waitStreamRequests_frame [OF w] obtain bc where f3: "f3 = feed2\<lparr>backch := bc\<rparr>" by blast
  have s: "start env feed req = (f3, Some ErrorResponseTimeout)"
    by (simp add: start_def p r startLoop_append l bf w e3 Let_def)
  from processSubscribers_frame [OF p] obtain eng ep where
    f1: "feed1 = feed\<lparr>engines := eng, endpoints := ep\<rparr>" by blast
  have o: "Bucket reqTs \<notin> Bucket ` set pre \<Longrightarrow>
      reqTss feed2 (Bucket reqTs) = reqTss feed (Bucket reqTs) \<and>
      rollTss feed2 (Bucket reqTs) = rollTss feed (Bucket reqTs) \<and>
      feeders feed2 (Bucket reqTs) = feeders feed (Bucket reqTs) \<and>
      kvdata feed2 (Bucket reqTs) = kvdata feed (Bucket reqTs)"
    using startLoop_other_bucket [of "Bucket reqTs" pre env ?o feed1] l f1 by simp
  show ?thesis
    using o by (simp add: s f3)
qed

theorem start_timeout_leaves_bucket_witness:
  "snd (start demoFeedEnv timeoutFeed (demoStartReq ''default'' ''b1'')) = Some ErrorResponseTimeout \<and>
   reqTss (fst (start demoFeedEnv timeoutFeed (demoStartReq ''default'' ''b1''))) ''b1'' = None \<and>
   feeders (fst (start demoFeedEnv timeoutFeed (demoStartReq ''default'' ''b1''))) ''b1'' = None"
proof -
  let ?f1 = "fst (processSubscribers demoFeedEnv timeoutFeed (demoStartReq ''default'' ''b1''))"
  have p: "processSubscribers demoFeedEnv timeoutFeed (demoStartReq ''default'' ''b1'') = (?f1, None)"
    by (simp add: demo_defs feed_defs)
  have r: "mtr_ReqTimestamps (demoStartReq ''default'' ''b1'') = [] @ demoTs ''default'' ''b1'' # []"
    by (simp add: demo_defs)
  have l: "startLoop demoFeedEnv (newOpaque demoFeedEnv) [] ?f1 = (?f1, None)"
    by simp
  have bf: "bucketFeed demoFeedEnv ?f1 (newOpaque demoFeedEnv) False True (demoTs ''default'' ''b1'') =
      Inr (BucketFeeder 0)"
    by (simp add: demo_defs feed_defs)
  have n: "\<not> set (Vbno32to16 (Vbnos (demoTs ''default'' ''b1''))) \<subseteq>
      csr_vbno ` set (feedbackFor (newOpaque demoFeedEnv) (Bucket (demoTs ''default'' ''b1'')) (backch ?f1))"
    by (simp add: demo_defs feed_defs)
  have k: "reqTss ?f1 = Map.empty" "feeders ?f1 = Map.empty"
    by (simp_all add: demo_defs feed_defs)
  from start_timeout_leaves_bucket [OF p r l bf n]
  show ?thesis
    by (simp add: k)
qed

text \<open>
  C4 as stated fails where it says that no partial topic state is visible. The start
  of bucket b1 that times out has installed the engine of b1 and the endpoint ep1,
  which the feed did not have before. A start of the buckets b1 and b2 in which the
  wait of b2 times out returns the error with b1 recorded in \<open>reqTss\<close> and
  \<open>feeders\<close>.
\<close>

theorem timed_out_start_leaves_state:
  "snd (start demoFeedEnv timeoutFeed (demoStartReq ''default'' ''b1'')) = Some ErrorResponseTimeout \<and>
   engines timeoutFeed ''b1'' = None \<and> endpoints timeoutFeed ''ep1'' = None \<and>
   engines (fst (start demoFeedEnv timeoutFeed (demoStartReq ''default'' ''b1''))) ''b1'' \<noteq> None \<and>
   endpoints (fst (start demoFeedEnv timeoutFeed (demoStartReq ''default'' ''b1''))) ''ep1'' \<noteq> None \<and>
   snd (start demoFeedEnv rollbackFeed twoBucketReq) = Some ErrorResponseTimeout \<and>
   reqTss rollbackFeed ''b1'' = None \<and> feeders rollbackFeed ''b1'' = None \<and>
   reqTss (fst (start demoFeedEnv rollbackFeed twoBucketReq)) ''b1'' = Some (demoTs ''default'' ''b1'') \<and>
   feeders (fst (start demoFeedEnv rollbackFeed twoBucketReq)) ''b1'' = Some (BucketFeeder 0)"
  by (simp add: demo_defs feed_defs)

subsection \<open>Start followed by delBuckets\<close>

lemma startLoop_success_dom:
  "startLoop env opaque tss feed = (feed', None) \<Longrightarrow>
   dom (reqTss feed') = dom (reqTss feed) \<union> Bucket ` set tss \<and>
   dom (rollTss feed') = dom (rollTss feed) \<union> Bucket ` set tss \<and>
   dom (feeders feed') = dom (feeders feed) \<union> Bucket ` set tss \<and>
   dom (kvdata feed') = dom (kvdata feed) \<union> Bucket ` set tss \<and>
   engines feed' = engines feed"
proof (induction tss arbitrary: feed)
  case Nil
  then show ?case by simp
next
  case (Cons reqTs rest)
  show ?case
  proof (cases "bucketFeed env feed opaque False True reqTs")
    case (Inl e)
    with Cons.prems show ?thesis by simp
  next
    case (Inr feeder)
    obtain f1 rollTs e1 where
      w: "waitStreamRequests feed opaque (Bucket reqTs) (Bucket reqTs) (Vbno32to16 (Vbnos reqTs)) = (f1, rollTs, e1)"
      by (cases "waitStreamRequests feed opaque (Bucket reqTs) (Bucket reqTs) (Vbno32to16 (Vbnos reqTs))") auto
    from waitStreamRequests_frame [OF w] obtain bc where f1: "f1 = feed\<lparr>backch := bc\<rparr>" by blast
    show ?thesis
    proof (cases e1)
      case None
      with Inr w Cons.prems have
        "startLoop env opaque rest
           (f1\<lparr>reqTss := (reqTss f1)(Bucket reqTs \<mapsto> reqTs),
               rollTss := (rollTss f1)(Bucket reqTs \<mapsto> rollTs),
               feeders := (feeders f1)(Bucket reqTs \<mapsto> feeder),
               kvdata := (kvdata f1)(Bucket reqTs \<mapsto> startDataPath feed (Bucket reqTs) feeder reqTs)\<rparr>) =
         (feed', None)"
        by (simp add: Let_def)
      from Cons.IH [OF this] f1 show ?thesis by auto
    next
      case (Some e)
      with Inr w Cons.prems show ?thesis by (simp add: Let_def)
    qed
  qed
qed

lemma installEngines_dom:
  "dom (engines (installEngines routers evs feed)) =
     dom (engines feed) \<union> (\<lambda>(uuid, ev). ev_Bucket ev) ` set evs"
proof (induction evs arbitrary: feed)
  case Nil
  show ?case by simp
next
  case (Cons e rest)
  obtain uuid ev where e: "e = (uuid, ev)" by (cases e)
  show ?case
    unfolding e installEngines.simps Let_def split
    by (subst Cons.IH) simp
qed

lemma processSubscribers_success:
  assumes "processSubscribers env feed req = (feed', None)"
  shows "\<exists>evs. GetEvaluators req = Inr evs \<and>
           dom (engines feed') = dom (engines feed) \<union> (\<lambda>(uuid, ev). ev_Bucket ev) ` set evs"
proof (cases "subscribers req")
  case (Inl e)
  with assms show ?thesis by (simp add: processSubscribers_def)
next
  case (Inr pr)
  obtain evaluators routers where pr: "pr = (evaluators, routers)" by (cases pr)
  from Inr pr have g: "GetEvaluators req = Inr evaluators"
    by (auto simp: subscribers_def split: sum.splits if_splits)
  obtain f1 e1 where s: "startEndpoints env routers feed = (f1, e1)"
    by (cases "startEndpoints env routers feed")
  from startEndpoints_frame [OF s] obtain ep where f1: "f1 = feed\<lparr>endpoints := ep\<rparr>" by blast
  from assms Inr pr s have e1: "e1 = None" and f: "feed' = installEngines routers evaluators f1"
    by (cases e1; simp add: processSubscribers_def)+
  show ?thesis
    using g f f1 by (simp add: installEngines_dom)
qed

lemma dom_if_None: "dom (\<lambda>a. if a = b then None else m a) = dom m - {b}"
  by (auto split: if_splits)

lemma delBucketsLoop_success_dom:
  "delBucketsLoop env opaque bs feed = (feed', None) \<Longrightarrow>
   dom (reqTss feed') = dom (reqTss feed) - set bs \<and>
   dom (rollTss feed') = dom (rollTss feed) - set bs \<and>
   dom (feeders feed') = dom (feeders feed) - set bs \<and>
   dom (kvdata feed') = dom (kvdata feed) - set bs \<and>
   dom (engines feed') = dom (engines feed) - set bs"
proof (induction bs arbitrary: feed)
  case Nil
  then show ?case by simp
next
  case (Cons b rest)
  show ?case
  proof (cases "kvdata feed b")
    case None
    with Cons.prems show ?thesis by simp
  next
    case (Some kvd)
    note k = this
    show ?thesis
    proof (cases "reqTss feed b")
      case None
      with k Cons.prems show ?thesis by simp
    next
      case (Some reqTs)
      note r = this
      show ?thesis
      proof (cases "bucketFeed env feed opaque True False reqTs")
        case (Inl e)
        with k r Cons.prems show ?thesis by simp
      next
        case (Inr feeder)
        obtain f1 e1 where w1: "waitStreamEnds feed opaque b (Vbno32to16 (Vbnos reqTs)) = (f1, e1)"
          by (cases "waitStreamEnds feed opaque b (Vbno32to16 (Vbnos reqTs))")
        from waitStreamEnds_frame [OF w1] obtain bc1 where f1: "f1 = feed\<lparr>backch := bc1\<rparr>" by blast
        show ?thesis
        proof (cases e1)
          case (Some e)
          with k r Inr w1 Cons.prems show ?thesis by (simp add: Let_def)
        next
          case None
          with k r Inr w1 Cons.prems have
            "delBucketsLoop env opaque rest
               (f1\<lparr>reqTss := (reqTss f1)(b := None), rollTss := (rollTss f1)(b := None),
                   feeders := (feeders f1)(b := None), kvdata := (kvdata f1)(b := None),
                   engines := (engines f1)(b := None)\<rparr>) = (feed', None)"
            by (simp add: Let_def)
          from Cons.IH [OF this] have
            "dom (reqTss feed') = dom (reqTss feed) - {b} - set rest"
            "dom (rollTss feed') = dom (rollTss feed) - {b} - set rest"
            "dom (feeders feed') = dom (feeders feed) - {b} - set rest"
            "dom (kvdata feed') = dom (kvdata feed) - {b} - set rest"
            "dom (engines feed') = dom (engines feed) - {b} - set rest"
            by (simp_all add: f1 dom_if_None)
          then show ?thesis by auto
        qed
      qed
    qed
  qed
qed

lemma empty_dom_diff: "dom m = A - B \<Longrightarrow> A \<subseteq> B \<Longrightarrow> m = Map.empty"
  by auto

text \<open>
  C5, as amended. On a feed whose per-bucket maps are empty, a start that succeeds,
  followed (after any feedback has arrived) by a \<open>delBuckets\<close> that succeeds and
  names every bucket of the request timestamps of the start, leaves \<open>reqTss\<close>,
  \<open>rollTss\<close>, \<open>feeders\<close> and \<open>kvdata\<close> empty; it leaves \<open>engines\<close> empty too
  when every instance of the start request is of a bucket that has a request
  timestamp.
\<close>

theorem start_delBuckets_round_trip:
  assumes fresh: "reqTss feed = Map.empty" "rollTss feed = Map.empty" "feeders feed = Map.empty"
      "kvdata feed = Map.empty" "engines feed = Map.empty"
    and s: "start env feed req = (feed1, None)"
    and d: "delBuckets env' (feed1\<lparr>backch := bc\<rparr>) dreq = (feed2, None)"
    and t: "Bucket ` set (mtr_ReqTimestamps req) \<subseteq> set (Buckets dreq)"
  shows "reqTss feed2 = Map.empty \<and> rollTss feed2 = Map.empty \<and> feeders feed2 = Map.empty \<and>
         kvdata feed2 = Map.empty \<and>
         (\<forall>evs. GetEvaluators req = Inr evs \<longrightarrow>
            (\<lambda>(uuid, ev). ev_Bucket ev) ` set evs \<subseteq> Bucket ` set (mtr_ReqTimestamps req) \<longrightarrow>
            engines feed2 = Map.empty)"
proof -
  obtain f0 e0 where p: "processSubscribers env feed req = (f0, e0)"
    by (cases "processSubscribers env feed req")
  from s p have e0: "e0 = None" and l: "startLoop env (newOpaque env) (mtr_ReqTimestamps req) f0 = (feed1, None)"
    by (cases e0; simp add: start_def)+
  from processSubscribers_frame [OF p] obtain eng ep where
    f0: "f0 = feed\<lparr>engines := eng, endpoints := ep\<rparr>" by blast
  from processSubscribers_success [OF p [unfolded e0]] fresh
  have de: "\<And>evs. GetEvaluators req = Inr evs \<Longrightarrow>
      dom (engines f0) = (\<lambda>(uuid, ev). ev_Bucket ev) ` set evs" by auto
  from startLoop_success_dom [OF l] f0 fresh
  have d1: "dom (reqTss feed1) = Bucket ` set (mtr_ReqTimestamps req)"
      "dom (rollTss feed1) = Bucket ` set (mtr_ReqTimestamps req)"
      "dom (feeders feed1) = Bucket ` set (mtr_ReqTimestamps req)"
      "dom (kvdata feed1) = Bucket ` set (mtr_ReqTimestamps req)"
      "engines feed1 = engines f0"
    by simp_all
  from d have "delBucketsLoop env' (newOpaque env') (Buckets dreq) (feed1\<lparr>backch := bc\<rparr>) = (feed2, None)"
    by (simp add: delBuckets_def)
  from delBucketsLoop_success_dom [OF this]
  have d2: "dom (reqTss feed2) = dom (reqTss feed1) - set (Buckets dreq)"
      "dom (rollTss feed2) = dom (rollTss feed1) - set (Buckets dreq)"
      "dom (feeders feed2) = dom (feeders feed1) - set (Buckets dreq)"
      "dom (kvdata feed2) = dom (kvdata feed1) - set (Buckets dreq)"
      "dom (engines feed2) = dom (engines feed1) - set (Buckets dreq)"
    by simp_all
  have u: "reqTss feed2 = Map.empty \<and> rollTss feed2 = Map.empty \<and> feeders feed2 = Map.empty \<and>
      kvdata feed2 = Map.empty"
    using d2 d1 t by (auto intro: empty_dom_diff)
  have g: "engines feed2 = Map.empty"
    if "GetEvaluators req = Inr evs"
      and "(\<lambda>(uuid, ev). ev_Bucket ev) ` set evs \<subseteq> Bucket ` set (mtr_ReqTimestamps req)" for evs
  proof -
    from de [OF that(1)] d1(5) d2(5)
    have "dom (engines feed2) = (\<lambda>(uuid, ev). ev_Bucket ev) ` set evs - set (Buckets dreq)"
      by simp
    moreover from that(2) t
    have "(\<lambda>(uuid, ev). ev_Bucket ev) ` set evs \<subseteq> set (Buckets dreq)" by blast
    ultimately show ?thesis by (rule empty_dom_diff)
  qed
  show ?thesis
    using u g by blast
qed

theorem start_delBuckets_round_trip_witness:
  "snd (start demoFeedEnv rollbackFeed (demoStartReq ''default'' ''b1'')) = None \<and>
   snd (delBuckets demoFeedEnv
          ((fst (start demoFeedEnv rollbackFeed (demoStartReq ''default'' ''b1'')))\<lparr>backch := streamEnds\<rparr>)
          demoDelReq) = None \<and>
   reqTss (fst (delBuckets demoFeedEnv
          ((fst (start demoFeedEnv rollbackFeed (demoStartReq ''default'' ''b1'')))\<lparr>backch := streamEnds\<rparr>)
          demoDelReq)) = Map.empty \<and>
   engines (fst (delBuckets demoFeedEnv
          ((fst (start demoFeedEnv rollbackFeed (demoStartReq ''default'' ''b1'')))\<lparr>backch := streamEnds\<rparr>)
          demoDelReq)) = Map.empty"
proof -
  let ?s = "start demoFeedEnv rollbackFeed (demoStartReq ''default'' ''b1'')"
  let ?d = "delBuckets demoFeedEnv ((fst ?s)\<lparr>backch := streamEnds\<rparr>) demoDelReq"
  have fresh: "reqTss rollbackFeed = Map.empty" "rollTss rollbackFeed = Map.empty"
    "feeders rollbackFeed = Map.empty" "kvdata rollbackFeed = Map.empty"
    "engines rollbackFeed = Map.empty"
    by (simp_all add: demo_defs)
  have s0: "snd ?s = None"
    by (simp add: demo_defs feed_defs)
  then have s: "?s = (fst ?s, None)"
    by (metis prod.collapse)
  have d0: "snd ?d = None"
    by (simp add: demo_defs feed_defs del_defs)
  then have d: "?d = (fst ?d, None)"
    by (metis prod.collapse)
  have t: "Bucket ` set (mtr_ReqTimestamps (demoStartReq ''default'' ''b1'')) \<subseteq> set (Buckets demoDelReq)"
    by (simp add: demo_defs del_defs)
  have e: "GetEvaluators (demoStartReq ''default'' ''b1'') = Inr [(42, \<lparr>ev_Bucket = ''b1''\<rparr>)]"
    "(\<lambda>(uuid, ev). ev_Bucket ev) ` set [(42 :: 64 word, \<lparr>ev_Bucket = ''b1''\<rparr>)] \<subseteq>
       Bucket ` set (mtr_ReqTimestamps (demoStartReq ''default'' ''b1''))"
    by (simp_all add: demo_defs del_defs)
  from start_delBuckets_round_trip [OF fresh s d t] e s0 d0
  show ?thesis by blast
qed

text \<open>
  C5 as stated fails for \<open>engines\<close>. The start has a timestamp for bucket b1 and an
  instance on bucket b2. The \<open>delBuckets\<close> that names b1 succeeds and leaves the
  engines of b2 in place, and a \<open>delBuckets\<close> that names b2 as well returns
  \<open>invalidBucket\<close>, since b2 was never started.
\<close>

theorem engines_survive_round_trip:
  "snd (start demoFeedEnv rollbackFeed (demoStartReq ''default'' ''b2'')) = None \<and>
   Bucket ` set (mtr_ReqTimestamps (demoStartReq ''default'' ''b2'')) = {''b1''} \<and>
   snd (delBuckets demoFeedEnv
          ((fst (start demoFeedEnv rollbackFeed (demoStartReq ''default'' ''b2'')))\<lparr>backch := streamEnds\<rparr>)
          demoDelReq) = None \<and>
   engines (fst (delBuckets demoFeedEnv
          ((fst (start demoFeedEnv rollbackFeed (demoStartReq ''default'' ''b2'')))\<lparr>backch := streamEnds\<rparr>)
          demoDelReq)) ''b2'' \<noteq> None \<and>
   snd (delBuckets demoFeedEnv
          ((fst (start demoFeedEnv rollbackFeed (demoStartReq ''default'' ''b2'')))\<lparr>backch := streamEnds\<rparr>)
          \<lparr>Buckets = [''b1'', ''b2'']\<rparr>) = Some ErrorInvalidBucket"
  by (simp add: demo_defs feed_defs del_defs)

subsection \<open>The pool name of a start\<close>

lemma feedbackLoop_pool:
  "feedbackLoop (streamRequestCallb opaque bucketn) bc (vbnos, r) msgs = (e, rest, (vbnos', r'), msgs') \<Longrightarrow>
   Pool r' = Pool r \<and> Bucket r' = Bucket r"
proof (induction bc arbitrary: vbnos r msgs)
  case Nil
  then show ?case by simp
next
  case (Cons msg rest0)
  show ?case
  proof (cases "\<exists>val. msg = StreamRequestMsg val \<and> csr_bucket val = bucketn \<and> csr_opaque val = opaque")
    case False
    with Cons.prems have
      "feedbackLoop (streamRequestCallb opaque bucketn) rest0 (vbnos, r) (msgs @ [msg]) =
         (e, rest, (vbnos', r'), msgs')"
      by (simp add: callb_skip)
    from Cons.IH [OF this] show ?thesis .
  next
    case True
    then obtain val where msg: "msg = StreamRequestMsg val"
      and m: "csr_bucket val = bucketn" "csr_opaque val = opaque" by blast
    let ?r1 = "if csr_status val = ROLLBACK
      then Append r (csr_vbno val) (csr_seqno val) (csr_vbuuid val) 0 0 else r"
    have pr: "Pool ?r1 = Pool r \<and> Bucket ?r1 = Bucket r"
      by (simp add: Append_def)
    show ?thesis
    proof (cases "RemoveUint16 (csr_vbno val) vbnos = []")
      case True
      with Cons.prems msg m have "r' = ?r1"
        by (simp add: callb_match)
      with pr show ?thesis by simp
    next
      case False
      with Cons.prems msg m have
        "feedbackLoop (streamRequestCallb opaque bucketn) rest0
           (RemoveUint16 (csr_vbno val) vbnos, ?r1) msgs = (e, rest, (vbnos', r'), msgs')"
        by (simp add: callb_match)
      from Cons.IH [OF this] pr show ?thesis by simp
    qed
  qed
qed

lemma waitStreamRequests_pool:
  "waitStreamRequests feed opaque pooln bucketn vbnos = (feed', rollTs, err) \<Longrightarrow>
   Pool rollTs = pooln \<and> Bucket rollTs = bucketn"
proof (cases "vbnos = []")
  case True
  assume "waitStreamRequests feed opaque pooln bucketn vbnos = (feed', rollTs, err)"
  with True show ?thesis
    by (auto simp: waitStreamRequests_def NewTsVbuuid_def)
next
  case False
  assume w: "waitStreamRequests feed opaque pooln bucketn vbnos = (feed', rollTs, err)"
  obtain e rest vbnos' r' msgs' where
    l: "feedbackLoop (streamRequestCallb opaque bucketn) (backch feed) (vbnos, NewTsVbuuid pooln bucketn) [] =
          (e, rest, (vbnos', r'), msgs')"
    by (metis prod.collapse)
  from w False l have "rollTs = r'"
    by (simp add: waitStreamRequests_def waitOnFeedback_def Let_def)
  with feedbackLoop_pool [OF l] show ?thesis
    by (simp add: NewTsVbuuid_def)
qed

lemma startLoop_rollTss_pool:
  "rollTss (fst (startLoop env opaque tss feed)) b = Some r \<Longrightarrow>
   rollTss feed b = Some r \<or> Pool r = b"
proof (induction tss arbitrary: feed)
  case Nil
  then show ?case by simp
next
  case (Cons reqTs rest)
  show ?case
  proof (cases "bucketFeed env feed opaque False True reqTs")
    case (Inl e)
    with Cons.prems show ?thesis by simp
  next
    case (Inr feeder)
    obtain f1 rollTs e1 where
      w: "waitStreamRequests feed opaque (Bucket reqTs) (Bucket reqTs) (Vbno32to16 (Vbnos reqTs)) = (f1, rollTs, e1)"
      by (cases "waitStreamRequests feed opaque (Bucket reqTs) (Bucket reqTs) (Vbno32to16 (Vbnos reqTs))") auto
    from waitStreamRequests_frame [OF w] obtain bc where f1: "f1 = feed\<lparr>backch := bc\<rparr>" by blast
    from waitStreamRequests_pool [OF w] have pr: "Pool rollTs = Bucket reqTs" by simp
    show ?thesis
    proof (cases e1)
      case (Some e)
      with Inr w f1 Cons.prems show ?thesis by (simp add: Let_def)
    next
      case None
      let ?f2 = "f1\<lparr>reqTss := (reqTss f1)(Bucket reqTs \<mapsto> reqTs),
               rollTss := (rollTss f1)(Bucket reqTs \<mapsto> rollTs),
               feeders := (feeders f1)(Bucket reqTs \<mapsto> feeder),
               kvdata := (kvdata f1)(Bucket reqTs \<mapsto> startDataPath feed (Bucket reqTs) feeder reqTs)\<rparr>"
      from None Inr w Cons.prems have "rollTss (fst (startLoop env opaque rest ?f2)) b = Some r"
        by (simp add: Let_def)
      from Cons.IH [OF this] have "rollTss ?f2 b = Some r \<or> Pool r = b" .
      with f1 pr show ?thesis
        by (auto split: if_splits)
    qed
  qed
qed

lemma addBucketsLoop_rollTss_pool:
  "rollTss (fst (addBucketsLoop env opaque tss feed)) b = Some r \<Longrightarrow>
   rollTss feed b = Some r \<or> (\<exists>ts \<in> set tss. Bucket ts = b \<and> Pool r = Pool ts)"
proof (induction tss arbitrary: feed)
  case Nil
  then show ?case by simp
next
  case (Cons reqTs rest)
  show ?case
  proof (cases "bucketFeed env feed opaque False True reqTs")
    case (Inl e)
    with Cons.prems show ?thesis by simp
  next
    case (Inr feeder)
    obtain f1 rollTs e1 where
      w: "waitStreamRequests feed opaque (Pool reqTs) (Bucket reqTs) (Vbno32to16 (Vbnos reqTs)) = (f1, rollTs, e1)"
      by (cases "waitStreamRequests feed opaque (Pool reqTs) (Bucket reqTs) (Vbno32to16 (Vbnos reqTs))") auto
    from waitStreamRequests_frame [OF w] obtain bc where f1: "f1 = feed\<lparr>backch := bc\<rparr>" by blast
    from waitStreamRequests_pool [OF w] have pr: "Pool rollTs = Pool reqTs" by simp
    show ?thesis
    proof (cases e1)
      case (Some e)
      with Inr w f1 Cons.prems show ?thesis by (simp add: Let_def)
    next
      case None
      let ?f2 = "f1\<lparr>reqTss := (reqTss f1)(Bucket reqTs \<mapsto> reqTs),
               rollTss := (rollTss f1)(Bucket reqTs \<mapsto> rollTs),
               feeders := (feeders f1)(Bucket reqTs \<mapsto> feeder),
               kvdata := (kvdata f1)(Bucket reqTs \<mapsto> startDataPath feed (Bucket reqTs) feeder reqTs)\<rparr>"
      from None Inr w Cons.prems have "rollTss (fst (addBucketsLoop env opaque rest ?f2)) b = Some r"
        by (simp add: Let_def)
      from Cons.IH [OF this]
      have "rollTss ?f2 b = Some r \<or> (\<exists>ts \<in> set rest. Bucket ts = b \<and> Pool r = Pool ts)" .
      with f1 pr show ?thesis
        by (auto split: if_splits)
    qed
  qed
qed

lemma restartLoop_rollTss_pool:
  "rollTss (fst (restartLoop env opaque tss feed)) b = Some r \<Longrightarrow>
   rollTss feed b = Some r \<or> (\<exists>ts \<in> set tss. Bucket ts = b \<and> Pool r = Pool ts)"
proof (induction tss arbitrary: feed)
  case Nil
  then show ?case by simp
next
  case (Cons restartTs rest)
  let ?b = "Bucket restartTs"
  let ?vbnos = "Vbno32to16 (Vbnos restartTs)"
  show ?case
  proof (cases "reqTss feed ?b")
    case None
    with Cons.prems show ?thesis by simp
  next
    case (Some reqTs)
    note r = this
    show ?thesis
    proof (cases "kvdata feed ?b")
      case None
      with r Cons.prems show ?thesis by simp
    next
      case (Some kvd)
      note k = this
      show ?thesis
      proof (cases "bucketFeed env feed opaque True False restartTs")
        case (Inl e)
        with r k Cons.prems show ?thesis by simp
      next
        case (Inr feeder0)
        note bf0 = this
        obtain f1 e1 where w1: "waitStreamEnds feed opaque ?b ?vbnos = (f1, e1)"
          by (cases "waitStreamEnds feed opaque ?b ?vbnos")
        from waitStreamEnds_frame [OF w1] obtain bc1 where f1: "f1 = feed\<lparr>backch := bc1\<rparr>" by blast
        show ?thesis
        proof (cases e1)
          case (Some e)
          with r k bf0 w1 f1 Cons.prems show ?thesis by (simp add: Let_def)
        next
          case None
          note e1 = this
          show ?thesis
          proof (cases "bucketFeed env f1 opaque False True restartTs")
            case (Inl e)
            with r k bf0 w1 e1 f1 Cons.prems show ?thesis by (simp add: Let_def)
          next
            case (Inr feeder1)
            note bf1 = this
            obtain f2 rollTs e2 where
              w2: "waitStreamRequests f1 opaque (Pool restartTs) ?b ?vbnos = (f2, rollTs, e2)"
              by (cases "waitStreamRequests f1 opaque (Pool restartTs) ?b ?vbnos") auto
            from waitStreamRequests_frame [OF w2] obtain bc2 where f2: "f2 = f1\<lparr>backch := bc2\<rparr>" by blast
            from waitStreamRequests_pool [OF w2] have pr: "Pool rollTs = Pool restartTs" by simp
            show ?thesis
            proof (cases e2)
              case (Some e)
              with r k bf0 w1 e1 bf1 w2 f1 f2 Cons.prems show ?thesis by (simp add: Let_def)
            next
              case None
              let ?f3 = "f2\<lparr>reqTss := (reqTss f2)(?b \<mapsto> Union env reqTs restartTs),
                            rollTss := (rollTss f2)(?b \<mapsto> rollTs)\<rparr>"
              from None r k bf0 w1 e1 bf1 w2 Cons.prems
              have "rollTss (fst (restartLoop env opaque rest ?f3)) b = Some r"
                by (simp add: Let_def)
              from Cons.IH [OF this]
              have "rollTss ?f3 b = Some r \<or> (\<exists>ts \<in> set rest. Bucket ts = b \<and> Pool r = Pool ts)" .
              with f1 f2 pr show ?thesis
                by (auto split: if_splits)
            qed
          qed
        qed
      qed
    qed
  qed
qed

lemma endpointLoop_ConnectBucket:
  "endpointLoop (env\<lparr>ConnectBucket := cb\<rparr>) raddrs feed = endpointLoop env raddrs feed"
  by (induction raddrs arbitrary: feed) (simp_all cong: sum.case_cong option.case_cong)

lemma startEndpoints_ConnectBucket:
  "startEndpoints (env\<lparr>ConnectBucket := cb\<rparr>) routers feed = startEndpoints env routers feed"
proof (induction routers arbitrary: feed)
  case Nil
  show ?case by simp
next
  case (Cons r rest)
  obtain uuid router where r: "r = (uuid, router)" by (cases r)
  show ?case
    by (simp add: r endpointLoop_ConnectBucket Cons.IH cong: prod.case_cong option.case_cong)
qed

lemma processSubscribers_ConnectBucket:
  "processSubscribers (env\<lparr>ConnectBucket := cb\<rparr>) feed req = processSubscribers env feed req"
  by (simp add: processSubscribers_def startEndpoints_ConnectBucket cong: sum.case_cong)

lemma getBucket_ConnectBucket:
  "cb (cluster feed) pooln bucketn = ConnectBucket env (cluster feed) pooln bucketn \<Longrightarrow>
   getBucket (env\<lparr>ConnectBucket := cb\<rparr>) feed pooln bucketn = getBucket env feed pooln bucketn"
  by (simp add: getBucket_def cong: option.case_cong)

lemma bucketDetails_ConnectBucket:
  "cb (cluster feed) pooln bucketn = ConnectBucket env (cluster feed) pooln bucketn \<Longrightarrow>
   bucketDetails (env\<lparr>ConnectBucket := cb\<rparr>) feed pooln bucketn = bucketDetails env feed pooln bucketn"
  by (simp add: bucketDetails_def getBucket_ConnectBucket
      cong: sum.case_cong option.case_cong)

lemma bucketFeed_ConnectBucket:
  "cb (cluster feed) (Pool ts) (Bucket ts) = ConnectBucket env (cluster feed) (Pool ts) (Bucket ts) \<Longrightarrow>
   bucketFeed (env\<lparr>ConnectBucket := cb\<rparr>) feed opaque stp strt ts = bucketFeed env feed opaque stp strt ts"
  by (simp add: bucketFeed_def bucketDetails_ConnectBucket getBucket_ConnectBucket
      cong: sum.case_cong option.case_cong prod.case_cong if_cong)

lemma startLoop_ConnectBucket:
  "\<forall>ts \<in> set tss. cb (cluster feed) (Pool ts) (Bucket ts) =
       ConnectBucket env (cluster feed) (Pool ts) (Bucket ts) \<Longrightarrow>
   startLoop (env\<lparr>ConnectBucket := cb\<rparr>) opaque tss feed = startLoop env opaque tss feed"
proof (induction tss arbitrary: feed)
  case Nil
  show ?case by simp
next
  case (Cons reqTs rest)
  from Cons.prems have
    h: "cb (cluster feed) (Pool reqTs) (Bucket reqTs) =
          ConnectBucket env (cluster feed) (Pool reqTs) (Bucket reqTs)"
    and hr: "\<forall>ts \<in> set rest. cb (cluster feed) (Pool ts) (Bucket ts) =
          ConnectBucket env (cluster feed) (Pool ts) (Bucket ts)" by auto
  have bf: "bucketFeed (env\<lparr>ConnectBucket := cb\<rparr>) feed opaque False True reqTs =
      bucketFeed env feed opaque False True reqTs"
    using h by (rule bucketFeed_ConnectBucket)
  show ?case
  proof (cases "bucketFeed env feed opaque False True reqTs")
    case (Inl e)
    with bf show ?thesis by simp
  next
    case (Inr feeder)
    obtain f1 rollTs e1 where
      w: "waitStreamRequests feed opaque (Bucket reqTs) (Bucket reqTs) (Vbno32to16 (Vbnos reqTs)) = (f1, rollTs, e1)"
      by (cases "waitStreamRequests feed opaque (Bucket reqTs) (Bucket reqTs) (Vbno32to16 (Vbnos reqTs))") auto
    from waitStreamRequests_frame [OF w] obtain bc where f1: "f1 = feed\<lparr>backch := bc\<rparr>" by blast
    show ?thesis
    proof (cases e1)
      case (Some e)
      with Inr bf w show ?thesis by (simp add: Let_def)
    next
      case None
      let ?f2 = "f1\<lparr>reqTss := (reqTss f1)(Bucket reqTs \<mapsto> reqTs),
               rollTss := (rollTss f1)(Bucket reqTs \<mapsto> rollTs),
               feeders := (feeders f1)(Bucket reqTs \<mapsto> feeder),
               kvdata := (kvdata f1)(Bucket reqTs \<mapsto> startDataPath feed (Bucket reqTs) feeder reqTs)\<rparr>"
      from hr f1 have "\<forall>ts \<in> set rest. cb (cluster ?f2) (Pool ts) (Bucket ts) =
          ConnectBucket env (cluster ?f2) (Pool ts) (Bucket ts)" by simp
      then have "startLoop (env\<lparr>ConnectBucket := cb\<rparr>) opaque rest ?f2 = startLoop env opaque rest ?f2"
        by (rule Cons.IH)
      with None Inr bf w show ?thesis by (simp add: Let_def)
    qed
  qed
qed

lemma start_ConnectBucket:
  assumes "\<forall>ts \<in> set (mtr_ReqTimestamps req). cb (cluster feed) (Pool ts) (Bucket ts) =
       ConnectBucket env (cluster feed) (Pool ts) (Bucket ts)"
  shows "start (env\<lparr>ConnectBucket := cb\<rparr>) feed req = start env feed req"
proof -
  obtain f0 e0 where p: "processSubscribers env feed req = (f0, e0)"
    by (cases "processSubscribers env feed req")
  from processSubscribers_frame [OF p] obtain eng ep where
    f0: "f0 = feed\<lparr>engines := eng, endpoints := ep\<rparr>" by blast
  from assms f0 have "\<forall>ts \<in> set (mtr_ReqTimestamps req). cb (cluster f0) (Pool ts) (Bucket ts) =
       ConnectBucket env (cluster f0) (Pool ts) (Bucket ts)" by simp
  then have "startLoop (env\<lparr>ConnectBucket := cb\<rparr>) (newOpaque env) (mtr_ReqTimestamps req) f0 =
      startLoop env (newOpaque env) (mtr_ReqTimestamps req) f0"
    by (rule startLoop_ConnectBucket)
  then show ?thesis
    by (cases e0) (simp_all add: start_def processSubscribers_ConnectBucket p newOpaque_def)
qed

text \<open>
  C9, as amended. In \<open>start\<close> the bucket is connected, and with it the vbucket map
  and the failover logs are read, under the pool field of the request timestamp: the
  result of \<open>start\<close> does not depend on what \<open>ConnectBucket\<close> answers for any other
  pool. The pool name bound from the bucket field is used for the rollback timestamp
  only: a rollback timestamp that \<open>start\<close> records under a bucket has that bucket as
  its pool field, whereas one recorded by \<open>addBuckets\<close> or \<open>restartVbuckets\<close> has
  the pool field of the request timestamp.
\<close>

theorem start_pool_binding:
  "((\<forall>ts \<in> set (mtr_ReqTimestamps mreq). cb (cluster feed) (Pool ts) (Bucket ts) =
        ConnectBucket env (cluster feed) (Pool ts) (Bucket ts)) \<longrightarrow>
      start (env\<lparr>ConnectBucket := cb\<rparr>) feed mreq = start env feed mreq) \<and>
   (rollTss (fst (start env feed mreq)) b = Some r \<longrightarrow>
      rollTss feed b = Some r \<or> Pool r = b) \<and>
   (rollTss (fst (addBuckets env feed areq)) b = Some r \<longrightarrow>
      rollTss feed b = Some r \<or> (\<exists>ts \<in> set (abr_ReqTimestamps areq). Bucket ts = b \<and> Pool r = Pool ts)) \<and>
   (rollTss (fst (restartVbuckets env feed rreq)) b = Some r \<longrightarrow>
      rollTss feed b = Some r \<or> (\<exists>ts \<in> set (RestartTimestamps rreq). Bucket ts = b \<and> Pool r = Pool ts))"
proof -
  obtain f0 e0 where p: "processSubscribers env feed mreq = (f0, e0)"
    by (cases "processSubscribers env feed mreq")
  from processSubscribers_frame [OF p] obtain eng ep where
    f0: "f0 = feed\<lparr>engines := eng, endpoints := ep\<rparr>" by blast
  have s: "rollTss (fst (start env feed mreq)) b = Some r \<Longrightarrow> rollTss feed b = Some r \<or> Pool r = b"
    using startLoop_rollTss_pool [of env "newOpaque env" "mtr_ReqTimestamps mreq" f0 b r] f0
    by (cases e0) (simp_all add: start_def p)
  obtain g0 d0 where q: "processSubscribers env feed areq = (g0, d0)"
    by (cases "processSubscribers env feed areq")
  from processSubscribers_frame [OF q] obtain eng' ep' where
    g0: "g0 = feed\<lparr>engines := eng', endpoints := ep'\<rparr>" by blast
  have a: "rollTss (fst (addBuckets env feed areq)) b = Some r \<Longrightarrow>
      rollTss feed b = Some r \<or> (\<exists>ts \<in> set (abr_ReqTimestamps areq). Bucket ts = b \<and> Pool r = Pool ts)"
    using addBucketsLoop_rollTss_pool [of env "newOpaque env" "abr_ReqTimestamps areq" g0 b r] g0
    by (cases d0) (simp_all add: addBuckets_def q)
  have c: "rollTss (fst (restartVbuckets env feed rreq)) b = Some r \<Longrightarrow>
      rollTss feed b = Some r \<or> (\<exists>ts \<in> set (RestartTimestamps rreq). Bucket ts = b \<and> Pool r = Pool ts)"
    using restartLoop_rollTss_pool [of env "newOpaque env" "RestartTimestamps rreq" feed b r]
    by (simp add: restartVbuckets_def)
  show ?thesis
    using s a c start_ConnectBucket [of mreq cb feed env] by blast
qed

theorem start_pool_binding_witness:
  "start (demoFeedEnv\<lparr>ConnectBucket := (\<lambda>clustern pooln bucketn.
       if pooln = ''default'' then Inr \<lparr>cb_pool = pooln, cb_name = bucketn\<rparr>
       else Inl (ErrExternal ''unknown''))\<rparr>) rollbackFeed (demoStartReq ''default'' ''b1'') =
     start demoFeedEnv rollbackFeed (demoStartReq ''default'' ''b1'') \<and>
   rollTss (fst (start demoFeedEnv rollbackFeed (demoStartReq ''default'' ''b1''))) ''b1'' =
     Some \<lparr>Pool = ''b1'', Bucket = ''b1'', Vbnos = [2], Seqnos = [50], Vbuuids = [0xAA],
           Snapshots = [(0, 0)]\<rparr> \<and>
   rollTss rollbackFeed ''b1'' = None"
proof -
  let ?cb = "\<lambda>clustern pooln bucketn.
       if pooln = ''default'' then Inr \<lparr>cb_pool = pooln, cb_name = bucketn\<rparr>
       else Inl (ErrExternal ''unknown'')"
  let ?r = "\<lparr>Pool = ''b1'', Bucket = ''b1'', Vbnos = [2], Seqnos = [50], Vbuuids = [0xAA],
           Snapshots = [(0, 0)]\<rparr>"
  have a: "\<forall>ts \<in> set (mtr_ReqTimestamps (demoStartReq ''default'' ''b1'')).
      ?cb (cluster rollbackFeed) (Pool ts) (Bucket ts) =
      ConnectBucket demoFeedEnv (cluster rollbackFeed) (Pool ts) (Bucket ts)"
    by (simp add: demo_defs)
  have r: "rollTss (fst (start demoFeedEnv rollbackFeed (demoStartReq ''default'' ''b1''))) ''b1'' = Some ?r"
    by (simp add: demo_defs feed_defs)
  have n: "rollTss rollbackFeed ''b1'' = None"
    by (simp add: demo_defs)
  from start_pool_binding [of "demoStartReq ''default'' ''b1''" ?cb rollbackFeed demoFeedEnv "''b1''" ?r]
    a r n
  show ?thesis by blast
qed

text \<open>
  C9 as stated fails for the vbucket map and the failover logs. The cluster has no
  pool named b1, the request timestamp names pool default and bucket b1, and the start
  succeeds: the bucket was connected under pool default, not under the bucket name.
  The rollback timestamp it records has the bucket name as its pool.
\<close>

theorem start_resolves_by_pool_field:
  "ConnectBucket demoFeedEnv (cluster rollbackFeed) ''b1'' ''b1'' = Inl (ErrExternal ''no such pool'') \<and>
   snd (start demoFeedEnv rollbackFeed (demoStartReq ''default'' ''b1'')) = None \<and>
   map_option Pool (rollTss (fst (start demoFeedEnv rollbackFeed (demoStartReq ''default'' ''b1''))) ''b1'') =
     Some ''b1''"
  by (simp add: demo_defs feed_defs)

end
